theory Spec2Isabelle
  imports Main "HOL-Library.Sublist"
begin

section \<open>Strings\<close>

text \<open>
  JavaScript strings are modelled as \<^typ>\<open>string\<close>, a list of 8-bit characters. Text
  outside ASCII (the Hebrew indicators of the adapters) is held as its UTF-8 bytes.
  \<open>toLowerCase\<close> maps the letters A to Z to a to z and keeps every other character;
  the only line terminators a character can hold are line feed and carriage return.
\<close>

definition toLowerChar :: "char \<Rightarrow> char" where
  "toLowerChar c =
     (case map_of (zip ''ABCDEFGHIJKLMNOPQRSTUVWXYZ'' ''abcdefghijklmnopqrstuvwxyz'') c of
        Some d \<Rightarrow> d
      | None \<Rightarrow> c)"

definition toLowerCase :: "string \<Rightarrow> string" where
  "toLowerCase s = map toLowerChar s"

text \<open>\<open>s.includes(p)\<close>: \<open>p\<close> occurs in \<open>s\<close> as a contiguous run of characters.\<close>

fun str_includes :: "string \<Rightarrow> string \<Rightarrow> bool" where
  "str_includes [] p = (p = [])"
| "str_includes (c # t) p = (prefix p (c # t) \<or> str_includes t p)"

text \<open>\<open>indicators.find(i => s.includes(i))\<close> as the helper loops of the adapters use it.\<close>

definition containsAny :: "string \<Rightarrow> string list \<Rightarrow> bool" where
  "containsAny s indicators = list_ex (\<lambda>i. str_includes s i) indicators"

definition isLineTerminator :: "char \<Rightarrow> bool" where
  "isLineTerminator c = (c = CHR 0x0A \<or> c = CHR 0x0D)"

definition isDigit :: "char \<Rightarrow> bool" where
  "isDigit c = (c \<in> set ''0123456789'')"

section \<open>WhatsApp adapter: allow list and block list (platforms/whatsapp.js)\<close>

text \<open>
  \<open>_matchPattern\<close> builds a regular expression from a pattern that holds a star:
  \<open>pattern.replace(/[.+?^${}()|[\]\\]/g, "\\$&").replace(/\*/g, ".*")\<close>, anchored
  by \<open>^\<close> and \<open>$\<close>. \<open>escapePattern\<close> is that rewriting, character by character;
  \<open>regexTest\<close> runs the anchored expression: a backslash makes the next character a
  literal, \<open>.*\<close> takes any run of characters that are not line terminators, every other
  character stands for itself.
\<close>

definition regexSpecial :: "char \<Rightarrow> bool" where
  "regexSpecial c = (c \<in> set ''.+?^${}()|[]'' \<or> c = CHR 0x5C)"

definition escapePattern :: "string \<Rightarrow> string" where
  "escapePattern p =
     concat (map (\<lambda>c. if regexSpecial c then [CHR 0x5C, c]
                       else if c = CHR ''*'' then ''.*''
                       else [c]) p)"

function regexTest :: "string \<Rightarrow> string \<Rightarrow> bool" where
  "regexTest [] s = (s = [])"
| "regexTest (c # r) s =
     (if c = CHR 0x5C then
        (case r of
           [] \<Rightarrow> False
         | d # r' \<Rightarrow> (case s of [] \<Rightarrow> False | x # t \<Rightarrow> x = d \<and> regexTest r' t))
      else if c = CHR ''.'' \<and> r \<noteq> [] \<and> hd r = CHR ''*'' then
        (regexTest (tl r) s \<or>
         (case s of [] \<Rightarrow> False | x # t \<Rightarrow> \<not> isLineTerminator x \<and> regexTest (c # r) t))
      else (case s of [] \<Rightarrow> False | x # t \<Rightarrow> x = c \<and> regexTest r t))"
  by pat_completeness auto
termination
  by (relation "measure (\<lambda>(r, s). length r + length s)") (auto simp: less_Suc_eq_le)

definition matchPattern :: "string \<Rightarrow> string \<Rightarrow> bool" where
  "matchPattern str pattern =
     (if pattern = ''*'' then True
      else if CHR ''*'' \<in> set pattern then regexTest (escapePattern pattern) str
      else str_includes str pattern)"

text \<open>
  \<open>isCallerAllowed(caller, allowList, blockList)\<close>. The caller is \<open>None\<close> for
  \<open>null\<close>; \<open>!caller\<close> holds for \<open>null\<close> and for the empty string, which the source
  calls "no caller ID".
\<close>

definition isCallerAllowed :: "string option \<Rightarrow> string list \<Rightarrow> string list \<Rightarrow> bool" where
  "isCallerAllowed caller allowList blockList =
     (case caller of
        None \<Rightarrow> allowList = []
      | Some c \<Rightarrow>
          if c = [] then allowList = []
          else
            let callerLower = toLowerCase c in
            if list_ex (\<lambda>pattern. matchPattern callerLower (toLowerCase pattern)) blockList
            then False
            else if allowList = [] then True
            else list_ex (\<lambda>pattern. matchPattern callerLower (toLowerCase pattern)) allowList)"

text \<open>
  The test the two loops of \<open>isCallerAllowed\<close> make for one pattern: both sides are
  lowercased before \<open>_matchPattern\<close> sees them.
\<close>

definition callerMatches :: "string \<Rightarrow> string \<Rightarrow> bool" where
  "callerMatches caller pattern = matchPattern (toLowerCase caller) (toLowerCase pattern)"




section \<open>Adapters: \<open>normalizeUrl\<close> and the resolver\<close>

datatype platform = GoogleMeet | Zoom | WhatsApp

text \<open>
  \<open>url.match(/(https:\/\/[^/]+)\/j\/(\d+)(.*)/)\<close>: the leftmost position where the
  expression matches. At one position the match is unique: the host is the whole run of
  characters up to the next slash, the identifier the whole run of digits, the rest
  everything up to the first line terminator.
\<close>

definition zoomJoinMatchAt :: "string \<Rightarrow> (string \<times> string \<times> string) option" where
  "zoomJoinMatchAt s =
     (if prefix ''https://'' s then
        let r = drop 8 s;
            host = takeWhile (\<lambda>c. c \<noteq> CHR ''/'') r;
            r1 = dropWhile (\<lambda>c. c \<noteq> CHR ''/'') r
        in if host = [] then None
           else if prefix ''/j/'' r1 then
             let r2 = drop 3 r1;
                 meetingId = takeWhile isDigit r2;
                 r3 = dropWhile isDigit r2
             in if meetingId = [] then None
                else Some (''https://'' @ host, meetingId,
                           takeWhile (\<lambda>c. \<not> isLineTerminator c) r3)
           else None
      else None)"

fun zoomJoinMatch :: "string \<Rightarrow> (string \<times> string \<times> string) option" where
  "zoomJoinMatch [] = zoomJoinMatchAt []"
| "zoomJoinMatch (c # t) =
     (case zoomJoinMatchAt (c # t) of Some m \<Rightarrow> Some m | None \<Rightarrow> zoomJoinMatch t)"

definition Base_normalizeUrl :: "string \<Rightarrow> string" where
  "Base_normalizeUrl url = url"

definition Zoom_normalizeUrl :: "string \<Rightarrow> string" where
  "Zoom_normalizeUrl url =
     (if str_includes url ''/wc/join/'' then url
      else case zoomJoinMatch url of
             Some (host, meetingId, rest) \<Rightarrow> host @ ''/wc/join/'' @ meetingId @ rest
           | None \<Rightarrow> url)"

definition WhatsApp_normalizeUrl :: "string \<Rightarrow> string" where
  "WhatsApp_normalizeUrl url = ''https://web.whatsapp.com''"

text \<open>Google Meet does not override \<open>normalizeUrl\<close> and inherits the base method.\<close>

fun normalizeUrl :: "platform \<Rightarrow> string \<Rightarrow> string" where
  "normalizeUrl GoogleMeet url = Base_normalizeUrl url"
| "normalizeUrl Zoom url = Zoom_normalizeUrl url"
| "normalizeUrl WhatsApp url = WhatsApp_normalizeUrl url"

text \<open>\<open>resolvePlatform\<close> (platforms/index.js): the first registry entry whose test
  accepts the URL; \<open>None\<close> is the thrown "Unsupported meeting platform".\<close>

definition resolvePlatform :: "string \<Rightarrow> platform option" where
  "resolvePlatform url =
     (if str_includes url ''meet.google.com'' then Some GoogleMeet
      else if str_includes url ''zoom.us'' then Some Zoom
      else if str_includes url ''web.whatsapp.com'' then Some WhatsApp
      else if str_includes url ''whatsapp.com'' then Some WhatsApp
      else None)"

section \<open>Session controller (meeting-bot.js)\<close>

text \<open>
  Every call that can throw returns a \<open>result\<close>. The adapter and the browser answer
  from the state of a remote page, so their answers are inputs of the model: one record
  \<open>env\<close> for the join flow and the cleanup, one record \<open>tick\<close> for each pass of the
  monitoring loop.
\<close>

datatype 'a result = Throws | Returns 'a

datatype admission = Admitted | Ended | Timeout | NotWaiting

datatype status = Running | Thrown | Exited nat

record session_info =
  si_platform :: "string option"
  si_audio :: "string option"
  si_rawTranscript :: "string option"
  si_transcript :: "string option"

datatype filedata = Audio nat | MetadataJson | Text string | SessionJson session_info | PidFile

datatype event =
    EvConnect | EvSetupAudio | EvStartRecording string | EvGoto string
  | EvDismissPopups | EvEnterName | EvMuteMedia | EvClickJoin
  | EvWaitForAdmission | EvVerifyInMeeting | EvRouteAudio
  | EvCheckMeetingEnded bool | EvGetParticipantCount
  | EvStopRecording | EvTranscribe string | EvUnlink string | EvGenerateMetadata string
  | EvWriteSession string | EvExit nat

text \<open>
  The fields of \<open>MeetingBot\<close> that the control flow reads or writes, the file system it
  writes to, the calls it has made so far, and whether the process still runs.
  \<open>attached\<close> stands for \<open>this.browser\<close> and \<open>this.page\<close> being set;
  \<open>audioSaveInterval\<close> for the flush timer being active. The timestamps and the fields
  that only feed the session record's metadata are left out.
\<close>

record bot =
  attached :: bool
  adapter :: "platform option"
  recordingPath :: "string option"
  meetingName :: "string option"
  isInMeeting :: bool
  hasJoinedMeeting :: bool
  platformName :: "string option"
  leftDueToEmptyTimeout :: bool
  emptyMeetingSince :: "int option"
  audioSaveInterval :: bool
  fs :: "string \<Rightarrow> filedata option"
  trace :: "event list"
  status :: status

definition newMeetingBot :: "(string \<Rightarrow> filedata option) \<Rightarrow> bot" where
  "newMeetingBot files =
     \<lparr> attached = False, adapter = None, recordingPath = None, meetingName = None,
       isInMeeting = False, hasJoinedMeeting = False, platformName = None,
       leftDueToEmptyTimeout = False, emptyMeetingSince = None, audioSaveInterval = False,
       fs = files, trace = [], status = Running \<rparr>"

text \<open>The configuration (lib/config.js); \<open>None\<close> is a key that is not set.\<close>

record config =
  emptyTimeoutMinutes :: "int option"
  skipTranscriptionOnEmptyLeave :: "bool option"
  googleAccountEnabled :: bool

definition DEFAULTS :: config where
  "DEFAULTS = \<lparr> emptyTimeoutMinutes = Some 15, skipTranscriptionOnEmptyLeave = Some True,
                googleAccountEnabled = False \<rparr>"

text \<open>\<open>(config.meeting?.emptyTimeoutMinutes || 15) * 60 * 1000\<close>\<close>

definition emptyTimeoutMs :: "config \<Rightarrow> int" where
  "emptyTimeoutMs cfg =
     (case emptyTimeoutMinutes cfg of
        None \<Rightarrow> 15
      | Some m \<Rightarrow> if m = 0 then 15 else m) * 60 * 1000"

record env =
  connect :: "unit result"
  setupAudioHooks :: "unit result"
  outputDir :: string
  goto :: "unit result"
  dismissPopups :: "nat \<Rightarrow> unit result"
  enterName :: "bool result"
  muteMedia :: "unit result"
  clickJoin :: "bool result"
  waitForAdmission :: "admission result"
  verifyInMeeting :: "bool result"
  finalChunks :: "nat list result"
  unlinkSucceeds :: bool
  transcribeScript :: "string option result"
  writeSessionFile :: "unit result"

record tick =
  tk_chunks :: "nat list result"
  tk_ended :: "bool \<Rightarrow> bool result"
  tk_count :: "int result"
  tk_now :: int

text \<open>Steps run in order until one throws or the process exits.\<close>

fun runSteps :: "(bot \<Rightarrow> bot) list \<Rightarrow> bot \<Rightarrow> bot" where
  "runSteps [] s = s"
| "runSteps (f # rest) s = (let s' = f s in if status s' = Running then runSteps rest s' else s')"

definition logCall :: "event \<Rightarrow> bot \<Rightarrow> bot" where
  "logCall e s = s\<lparr>trace := trace s @ [e]\<rparr>"

definition call :: "event \<Rightarrow> 'a result \<Rightarrow> bot \<Rightarrow> bot" where
  "call e r s = (case r of Throws \<Rightarrow> (logCall e s)\<lparr>status := Thrown\<rparr> | Returns _ \<Rightarrow> logCall e s)"

subsection \<open>String helpers of the cleanup\<close>

text \<open>\<open>s.replace(pat, rep)\<close> with a string pattern: the first occurrence only.\<close>

fun replaceFirst :: "string \<Rightarrow> string \<Rightarrow> string \<Rightarrow> string" where
  "replaceFirst [] pat rep = (if pat = [] then rep else [])"
| "replaceFirst (c # t) pat rep =
     (if prefix pat (c # t) then rep @ drop (length pat) (c # t)
      else c # replaceFirst t pat rep)"

text \<open>\<open>s.replace(/\.(wav|webm)$/, ".txt")\<close>\<close>

definition replaceAudioExt :: "string \<Rightarrow> string" where
  "replaceAudioExt s =
     (if suffix ''.wav'' s then take (length s - 4) s @ ''.txt''
      else if suffix ''.webm'' s then take (length s - 5) s @ ''.txt''
      else s)"

text \<open>\<open>fs.appendFileSync\<close> on the recording: the file is created when it is missing.\<close>

definition appendAudio :: "filedata option \<Rightarrow> nat \<Rightarrow> filedata" where
  "appendAudio f n =
     (case f of None \<Rightarrow> Audio n | Some (Audio m) \<Rightarrow> Audio (m + n) | Some other \<Rightarrow> other)"

text \<open>\<open>stat.size > 0\<close>; a JSON document is never empty.\<close>

definition nonEmptyFile :: "filedata \<Rightarrow> bool" where
  "nonEmptyFile f = (case f of Audio n \<Rightarrow> 0 < n | Text t \<Rightarrow> t \<noteq> [] | _ \<Rightarrow> True)"

definition fileText :: "filedata \<Rightarrow> string" where
  "fileText f = (case f of Text t \<Rightarrow> t | _ \<Rightarrow> [])"

definition platform_name :: "platform \<Rightarrow> string" where
  "platform_name a = (case a of GoogleMeet \<Rightarrow> ''google-meet'' | Zoom \<Rightarrow> ''zoom''
                      | WhatsApp \<Rightarrow> ''whatsapp'')"

text \<open>Only the Zoom adapter defines \<open>waitForAdmission\<close>.\<close>

definition hasWaitForAdmission :: "platform \<Rightarrow> bool" where
  "hasWaitForAdmission a = (a = Zoom)"

subsection \<open>Browser and recording\<close>

definition init :: "env \<Rightarrow> bot \<Rightarrow> bot" where
  "init e s =
     (case connect e of
        Throws \<Rightarrow> (logCall EvConnect s)\<lparr>status := Thrown\<rparr>
      | Returns _ \<Rightarrow> (logCall EvConnect s)\<lparr>attached := True\<rparr>)"

definition setupAudio :: "env \<Rightarrow> bot \<Rightarrow> bot" where
  "setupAudio e s = call EvSetupAudio (setupAudioHooks e) s"

definition startRecording :: "env \<Rightarrow> string \<Rightarrow> bot \<Rightarrow> bot" where
  "startRecording e name s =
     (logCall (EvStartRecording name) s)
       \<lparr> meetingName := Some name,
         recordingPath := Some (outputDir e @ ''/audio.webm''),
         fs := (fs s)(outputDir e @ ''/metadata.json'' \<mapsto> MetadataJson) \<rparr>"

definition routeAudio :: "bot \<Rightarrow> bot" where
  "routeAudio s = (logCall EvRouteAudio s)\<lparr>audioSaveInterval := True\<rparr>"

definition appendChunks :: "nat list \<Rightarrow> bot \<Rightarrow> bot" where
  "appendChunks chunks s =
     (if chunks \<noteq> [] then
        (case recordingPath s of
           Some p \<Rightarrow> s\<lparr>fs := (fs s)(p \<mapsto> appendAudio (fs s p) (sum_list chunks))\<rparr>
         | None \<Rightarrow> s)
      else s)"

text \<open>\<open>_flushAudioChunks\<close>, run by the interval timer between two passes of the loop.\<close>

definition flushAudioChunks :: "nat list result \<Rightarrow> bot \<Rightarrow> bot" where
  "flushAudioChunks r s =
     (if audioSaveInterval s then
        (case r of Throws \<Rightarrow> s | Returns chunks \<Rightarrow> appendChunks chunks s)
      else s)"

text \<open>
  \<open>stopRecording\<close>: the timer is cleared, the last chunks are fetched from the page and
  appended (inside a \<open>try\<close>; without a page the call throws and is caught), then the
  recording file is checked and \<open>recordingPath\<close> is reset when the file is missing or
  empty.
\<close>

definition finalFlush :: "env \<Rightarrow> bot \<Rightarrow> bot" where
  "finalFlush e s =
     (if attached s then
        (case finalChunks e of Throws \<Rightarrow> s | Returns chunks \<Rightarrow> appendChunks chunks s)
      else s)"

definition checkRecordingFile :: "bot \<Rightarrow> bot" where
  "checkRecordingFile s =
     (case recordingPath s of
        None \<Rightarrow> s
      | Some p \<Rightarrow>
          if suffix ''.webm'' p then
            (case fs s p of
               Some f \<Rightarrow> if nonEmptyFile f then s else s\<lparr>recordingPath := None\<rparr>
             | None \<Rightarrow> s\<lparr>recordingPath := None\<rparr>)
          else s)"

definition stopRecording :: "env \<Rightarrow> bot \<Rightarrow> bot" where
  "stopRecording e s =
     checkRecordingFile
       (finalFlush e ((logCall EvStopRecording s)\<lparr>audioSaveInterval := False\<rparr>))"

definition transcribe :: "env \<Rightarrow> bot \<Rightarrow> string option \<times> bot" where
  "transcribe e s =
     (case recordingPath s of
        None \<Rightarrow> (None, s)
      | Some p \<Rightarrow>
          (let s1 = logCall (EvTranscribe p) s in
           (case transcribeScript e of
              Throws \<Rightarrow> (None, s1)
            | Returns out \<Rightarrow>
                (let txtPath = replaceAudioExt p;
                     s2 = (case out of
                             Some t \<Rightarrow> s1\<lparr>fs := (fs s1)(txtPath \<mapsto> Text t)\<rparr>
                           | None \<Rightarrow> s1)
                 in (case fs s2 txtPath of
                       Some f \<Rightarrow> (Some (fileText f), s2)
                     | None \<Rightarrow> (None, s2))))))"

text \<open>The branch of \<open>cleanup\<close> that deletes the recording instead of transcribing it.\<close>

definition deleteRecording :: "env \<Rightarrow> bot \<Rightarrow> bot" where
  "deleteRecording e s =
     (case recordingPath s of
        None \<Rightarrow> s
      | Some p \<Rightarrow>
          if fs s p \<noteq> None then
            (if unlinkSucceeds e then (logCall (EvUnlink p) s)\<lparr>fs := (fs s)(p := None)\<rparr>
             else logCall (EvUnlink p) s)
          else s)"

definition skipTranscription :: "config \<Rightarrow> bot \<Rightarrow> bool" where
  "skipTranscription cfg s =
     (leftDueToEmptyTimeout s \<and> skipTranscriptionOnEmptyLeave cfg \<noteq> Some False)"

definition transcribeOrSkip :: "config \<Rightarrow> env \<Rightarrow> bot \<Rightarrow> string option \<times> bot" where
  "transcribeOrSkip cfg e s =
     (if skipTranscription cfg s then (None, deleteRecording e s) else transcribe e s)"

text \<open>\<open>this.recordingPath ? this.recordingPath.replace(".wav", ".txt") : null\<close>\<close>

definition transcriptPathOf :: "bot \<Rightarrow> string option" where
  "transcriptPathOf s =
     (case recordingPath s of Some p \<Rightarrow> Some (replaceFirst p ''.wav'' ''.txt'') | None \<Rightarrow> None)"

definition generateMetadataStep :: "bot \<Rightarrow> bot" where
  "generateMetadataStep s =
     (case transcriptPathOf s of
        Some tp \<Rightarrow> if fs s tp \<noteq> None then logCall (EvGenerateMetadata tp) s else s
      | None \<Rightarrow> s)"

definition sessionFileOf :: "bot \<Rightarrow> string" where
  "sessionFileOf s =
     (case recordingPath s of
        Some p \<Rightarrow> replaceFirst p ''audio.wav'' ''session.json''
      | None \<Rightarrow> ''/tmp/last-meeting-session.json'')"

definition sessionInfoOf :: "string option \<Rightarrow> bot \<Rightarrow> session_info" where
  "sessionInfoOf transcript s =
     \<lparr> si_platform = platformName s,
       si_audio = (if recordingPath s \<noteq> None then Some ''audio.wav'' else None),
       si_rawTranscript = (if transcriptPathOf s \<noteq> None then Some ''transcript.txt'' else None),
       si_transcript = transcript \<rparr>"

text \<open>
  The end of \<open>cleanup\<close>: \<open>fs.writeFileSync(sessionFile, ...)\<close> stands outside every
  \<open>try\<close>, so when the write fails \<open>cleanup\<close> throws and \<open>process.exit(0)\<close> is not
  reached; otherwise the session record is on disk and the process exits with status 0.
\<close>

definition writeSessionAndExit :: "env \<Rightarrow> string option \<Rightarrow> bot \<Rightarrow> bot" where
  "writeSessionAndExit e transcript s =
     (case writeSessionFile e of
        Throws \<Rightarrow> (logCall (EvWriteSession (sessionFileOf s)) s)\<lparr>status := Thrown\<rparr>
      | Returns _ \<Rightarrow>
          s\<lparr> fs := (fs s)(sessionFileOf s \<mapsto> SessionJson (sessionInfoOf transcript s)),
             trace := trace s @ [EvWriteSession (sessionFileOf s), EvExit 0],
             status := Exited 0 \<rparr>)"

definition cleanup :: "config \<Rightarrow> env \<Rightarrow> bot \<Rightarrow> bot" where
  "cleanup cfg e s =
     (let s1 = stopRecording e s;
          (transcript, s2) = transcribeOrSkip cfg e s1;
          s3 = generateMetadataStep s2
      in writeSessionAndExit e transcript s3)"

subsection \<open>Join flow\<close>

definition markJoined :: "bot \<Rightarrow> bot" where
  "markJoined s = s\<lparr>hasJoinedMeeting := True, isInMeeting := True\<rparr>"

definition neverGotIn :: "bot \<Rightarrow> bot" where
  "neverGotIn s = s\<lparr>isInMeeting := False, hasJoinedMeeting := False\<rparr>"

definition verifyStep :: "env \<Rightarrow> bot \<Rightarrow> bot" where
  "verifyStep e s =
     (case verifyInMeeting e of
        Throws \<Rightarrow> (logCall EvVerifyInMeeting s)\<lparr>status := Thrown\<rparr>
      | Returns inMeeting \<Rightarrow>
          if inMeeting then routeAudio (markJoined (logCall EvVerifyInMeeting s))
          else routeAudio ((logCall EvVerifyInMeeting s)\<lparr>isInMeeting := True\<rparr>))"

definition admissionStep :: "config \<Rightarrow> env \<Rightarrow> platform \<Rightarrow> bot \<Rightarrow> bot" where
  "admissionStep cfg e a s =
     (if hasWaitForAdmission a then
        (case waitForAdmission e of
           Throws \<Rightarrow> (logCall EvWaitForAdmission s)\<lparr>status := Thrown\<rparr>
         | Returns Admitted \<Rightarrow> routeAudio (markJoined (logCall EvWaitForAdmission s))
         | Returns Ended \<Rightarrow> cleanup cfg e (neverGotIn (logCall EvWaitForAdmission s))
         | Returns Timeout \<Rightarrow> cleanup cfg e (neverGotIn (logCall EvWaitForAdmission s))
         | Returns NotWaiting \<Rightarrow> verifyStep e (logCall EvWaitForAdmission s))
      else verifyStep e s)"

definition joinMeeting :: "config \<Rightarrow> env \<Rightarrow> string \<Rightarrow> bot \<Rightarrow> bot" where
  "joinMeeting cfg e url s =
     (case resolvePlatform url of
        None \<Rightarrow> s\<lparr>status := Thrown\<rparr>
      | Some a \<Rightarrow>
          runSteps
            [ (\<lambda>s. s\<lparr>adapter := Some a, platformName := Some (platform_name a)\<rparr>),
              call (EvGoto (normalizeUrl a url)) (goto e),
              call EvDismissPopups (dismissPopups e 1),
              (\<lambda>s. if googleAccountEnabled cfg then s else call EvEnterName (enterName e) s),
              call EvMuteMedia (muteMedia e),
              call EvDismissPopups (dismissPopups e 2),
              call EvClickJoin (clickJoin e),
              call EvDismissPopups (dismissPopups e 3),
              admissionStep cfg e a ] s)"

subsection \<open>Monitoring loop\<close>

text \<open>\<open>if (this.emptyMeetingSince)\<close>: \<open>null\<close> and \<open>0\<close> are both falsy.\<close>

definition timerStarted :: "bot \<Rightarrow> bool" where
  "timerStarted s = (case emptyMeetingSince s of None \<Rightarrow> False | Some t \<Rightarrow> t \<noteq> 0)"

text \<open>
  The \<open>try\<close> block of one pass: the participant count and the empty timer. Its
  \<open>catch\<close> is empty, and two calls inside it can throw: \<open>getParticipantCount\<close>, and
  \<open>cleanup\<close> when the session record cannot be written. Either throw is swallowed and
  the loop goes on to test \<open>this.isInMeeting\<close> again.
\<close>

definition checkEmptyTimeout :: "config \<Rightarrow> env \<Rightarrow> tick \<Rightarrow> bot \<Rightarrow> bot" where
  "checkEmptyTimeout cfg e t s =
     (let s1 = logCall EvGetParticipantCount s in
      case tk_count t of
        Throws \<Rightarrow> s1
      | Returns participantCount \<Rightarrow>
          if participantCount = 0 then
            (if \<not> timerStarted s1 then s1\<lparr>emptyMeetingSince := Some (tk_now t)\<rparr>
             else
               let emptyDuration = tk_now t - the (emptyMeetingSince s1) in
               if emptyDuration \<ge> emptyTimeoutMs cfg then
                 (let s2 = cleanup cfg e
                             (s1\<lparr>isInMeeting := False, leftDueToEmptyTimeout := True\<rparr>)
                  in if status s2 = Thrown then s2\<lparr>status := Running\<rparr> else s2)
               else s1)
          else if participantCount > 0 then
            (if timerStarted s1 then s1\<lparr>emptyMeetingSince := None\<rparr> else s1)
          else s1)"

definition monitorTick :: "config \<Rightarrow> env \<Rightarrow> tick \<Rightarrow> bot \<Rightarrow> bot" where
  "monitorTick cfg e t s =
     (let s0 = flushAudioChunks (tk_chunks t) s;
          s1 = logCall (EvCheckMeetingEnded (hasJoinedMeeting s0)) s0 in
      case tk_ended t (hasJoinedMeeting s0) of
        Throws \<Rightarrow> s1\<lparr>status := Thrown\<rparr>
      | Returns ended \<Rightarrow>
          if ended then cleanup cfg e (s1\<lparr>isInMeeting := False\<rparr>)
          else checkEmptyTimeout cfg e t s1)"

text \<open>
  \<open>while (this.isInMeeting)\<close>, one list element for each pass. When the list ends the
  bot is still monitoring.
\<close>

fun monitorMeeting :: "config \<Rightarrow> env \<Rightarrow> tick list \<Rightarrow> bot \<Rightarrow> bot" where
  "monitorMeeting cfg e [] s = s"
| "monitorMeeting cfg e (t # ts) s =
     (if isInMeeting s then
        (let s' = monitorTick cfg e t s in
         if status s' = Running then monitorMeeting cfg e ts s' else s')
      else s)"

subsection \<open>Main\<close>

definition runBody :: "config \<Rightarrow> env \<Rightarrow> string \<Rightarrow> string \<Rightarrow> tick list \<Rightarrow> bot \<Rightarrow> bot" where
  "runBody cfg e url name ticks s =
     runSteps [ init e, setupAudio e, startRecording e name, joinMeeting cfg e url,
                monitorMeeting cfg e ticks ] s"

text \<open>
  \<open>run\<close>: whatever the body throws is caught, and the handler runs \<open>cleanup\<close>. When
  the \<open>cleanup\<close> of the handler throws in its turn, nothing catches it: the result has
  status \<open>Thrown\<close>.
\<close>

definition run :: "config \<Rightarrow> env \<Rightarrow> string \<Rightarrow> string \<Rightarrow> tick list \<Rightarrow> bot \<Rightarrow> bot" where
  "run cfg e url name ticks s =
     (let s' = runBody cfg e url name ticks s in
      if status s' = Thrown then cleanup cfg e (s'\<lparr>status := Running\<rparr>) else s')"

section \<open>Watcher start-up (whatsapp-watcher.js)\<close>

text \<open>
  \<open>WhatsAppWatcher.run\<close> up to the polling loop: the PID file is written, then each of
  the three start-up failures ends the process with status 1.
\<close>

datatype watcher_state =
  STARTING | WAITING_AUTH | IDLE | RINGING | ANSWERING | IN_CALL | CALL_ENDED | PROCESSING | ERROR

record watcher =
  w_state :: watcher_state
  w_running :: bool
  w_fs :: "string \<Rightarrow> filedata option"
  w_status :: status

record watcher_env =
  pidFile :: string
  connectBrowser :: "unit result"
  ensureWhatsAppOpen :: bool
  waitForAuth :: bool

definition newWhatsAppWatcher :: "(string \<Rightarrow> filedata option) \<Rightarrow> watcher" where
  "newWhatsAppWatcher files =
     \<lparr> w_state = STARTING, w_running = False, w_fs = files, w_status = Running \<rparr>"

definition WhatsAppWatcher_startup :: "watcher_env \<Rightarrow> watcher \<Rightarrow> watcher" where
  "WhatsAppWatcher_startup e w =
     (let w1 = w\<lparr>w_running := True, w_fs := (w_fs w)(pidFile e \<mapsto> PidFile)\<rparr> in
      case connectBrowser e of
        Throws \<Rightarrow> w1\<lparr>w_status := Exited 1\<rparr>
      | Returns _ \<Rightarrow>
          if \<not> ensureWhatsAppOpen e then w1\<lparr>w_status := Exited 1\<rparr>
          else if \<not> waitForAuth e then w1\<lparr>w_state := WAITING_AUTH, w_status := Exited 1\<rparr>
          else w1\<lparr>w_state := IDLE\<rparr>)"

definition isSessionRecord :: "filedata option \<Rightarrow> bool" where
  "isSessionRecord f = (case f of Some (SessionJson _) \<Rightarrow> True | _ \<Rightarrow> False)"

section \<open>Adapters: end-of-session detection\<close>

text \<open>
  What one call of an adapter method can observe of the browser page. The probes are
  \<open>page.content()\<close>, \<open>page.evaluate\<close> reading \<open>document.body.innerText\<close>,
  \<open>page.url()\<close> and \<open>page.$(selector)\<close>; each can throw. The WhatsApp adapter reads
  the visible text, the markup and the \<open>data-icon\<close> attributes in one
  \<open>page.evaluate\<close>, which throws when \<open>pg_innerText\<close> does.
\<close>

record page =
  pg_content :: "string result"
  pg_innerText :: "string result"
  pg_innerMarkup :: string
  pg_url :: "string result"
  pg_query :: "string \<Rightarrow> bool result"
  pg_dataIcons :: "string list"

text \<open>The helpers of the base adapter catch every throw and answer "not found".\<close>

definition pageContainsAny :: "page \<Rightarrow> string list \<Rightarrow> bool" where
  "pageContainsAny p indicators =
     (case pg_content p of Throws \<Rightarrow> False | Returns c \<Rightarrow> containsAny c indicators)"

definition visibleTextContainsAny :: "page \<Rightarrow> string list \<Rightarrow> bool" where
  "visibleTextContainsAny p indicators =
     (case pg_innerText p of Throws \<Rightarrow> False | Returns t \<Rightarrow> containsAny t indicators)"

definition findFirst :: "page \<Rightarrow> string list \<Rightarrow> bool" where
  "findFirst p selectors = list_ex (\<lambda>sel. pg_query p sel = Returns True) selectors"

subsection \<open>Zoom (platforms/zoom.js)\<close>

definition zoomWaitingIndicators :: "string list" where
  "zoomWaitingIndicators =
   [''Please wait, the meeting host will let you in soon'',
    ''please wait, the meeting host will let you in soon'',
    ''Waiting for the host to let you in'',
    ''waiting for the host'',
    ''We'' @ [CHR 0x27] @ ''ve let them know you'' @ [CHR 0x27] @ ''re here'',
    ''we'' @ [CHR 0x27] @ ''ve let them know you'' @ [CHR 0x27] @ ''re here'',
    ''let them know you'' @ [CHR 0x27] @ ''re here'',
    ''the meeting host will let you in'',
    ''Waiting Room'',
    ''waiting room'',
    [CHR 0xD7, CHR 0x9E, CHR 0xD7, CHR 0x9E, CHR 0xD7, CHR 0xAA, CHR 0xD7, CHR 0x99, CHR 0xD7, CHR 0x9F]
      @ '' '' @ [CHR 0xD7, CHR 0x9C, CHR 0xD7, CHR 0x9E, CHR 0xD7, CHR 0x90, CHR 0xD7, CHR 0xA8, CHR 0xD7, CHR 0x97],
    [CHR 0xD7, CHR 0x97, CHR 0xD7, CHR 0x93, CHR 0xD7, CHR 0xA8]
      @ '' '' @ [CHR 0xD7, CHR 0x94, CHR 0xD7, CHR 0x9E, CHR 0xD7, CHR 0xAA, CHR 0xD7, CHR 0xA0, CHR 0xD7, CHR 0x94]]"

definition Zoom_isInWaitingRoom :: "page \<Rightarrow> bool" where
  "Zoom_isInWaitingRoom p =
     (if visibleTextContainsAny p zoomWaitingIndicators then True
      else if findFirst p [''[class*=\"waiting-room\"]'', ''[class*=\"waitingRoom\"]'',
                          ''[class*=\"WaitingRoom\"]'', ''#wc-waiting''] then True
      else False)"

definition Zoom_isInMeetingRoom :: "page \<Rightarrow> bool" where
  "Zoom_isInMeetingRoom p =
     (if Zoom_isInWaitingRoom p then False
      else if findFirst p [''button[aria-label*=\"Leave\" i]'', ''button[aria-label*=\"End\" i]'',
                          ''.footer__leave-btn'', ''[class*=\"leave-meeting\"]''] then True
      else if findFirst p [''#wc-container-left'', ''.meeting-client-inner'', ''.meeting-app'',
                          ''[class*=\"meeting-client\"]''] then True
      else False)"

definition zoomEndIndicators :: "string list" where
  "zoomEndIndicators =
   [''This meeting has been ended'',
    ''The host has ended the meeting'',
    ''Meeting has ended'',
    ''You have been removed from the meeting'',
    ''The meeting has ended for everyone'',
    ''This meeting has ended'',
    ''Meeting ended'']"

definition zoomRedirected :: "page \<Rightarrow> bool" where
  "zoomRedirected p =
     (case pg_url p of
        Throws \<Rightarrow> False
      | Returns currentUrl \<Rightarrow>
          currentUrl = ''https://zoom.us/''
          \<or> str_includes currentUrl ''zoom.us/postattendee''
          \<or> str_includes currentUrl ''zoom.us/meeting/ended''
          \<or> currentUrl = ''about:blank'')"

text \<open>
  \<open>document.body?.innerText?.length > 50\<close>. The length is counted in characters of the
  model: for ASCII text that is the JavaScript length, for text outside ASCII it is the
  number of UTF-8 bytes.
\<close>

definition bodyTextLong :: "page \<Rightarrow> bool" where
  "bodyTextLong p = (case pg_innerText p of Throws \<Rightarrow> False | Returns t \<Rightarrow> 50 < length t)"

definition Zoom_checkMeetingEnded :: "page \<Rightarrow> bool \<Rightarrow> bool" where
  "Zoom_checkMeetingEnded p hasJoinedBefore =
     (if pageContainsAny p zoomEndIndicators then True
      else if hasJoinedBefore
              \<and> pageContainsAny p [''waiting for the host'',
                                    ''Please wait, the meeting host will let you in soon'',
                                    ''Waiting Room''] then True
      else if hasJoinedBefore \<and> zoomRedirected p then True
      else if hasJoinedBefore \<and> \<not> Zoom_isInMeetingRoom p \<and> bodyTextLong p then True
      else False)"

subsection \<open>Google Meet (platforms/google-meet.js)\<close>

definition meetEndIndicators :: "bool \<Rightarrow> string list" where
  "meetEndIndicators hasJoinedBefore =
     [''You left the meeting'', ''Your host ended the meeting'', ''The meeting has ended'',
      ''Call ended'']
     @ (if hasJoinedBefore then [''Return to home screen'', ''Returning to home screen'']
        else [])"

definition meetRedirected :: "page \<Rightarrow> bool \<Rightarrow> bool" where
  "meetRedirected p hasJoinedBefore =
     (case pg_url p of
        Throws \<Rightarrow> False
      | Returns currentUrl \<Rightarrow>
          hasJoinedBefore \<and> (str_includes currentUrl ''/landing'' \<or> currentUrl = ''about:blank''))"

definition meetEndedAfterJoinPageCheck :: "page \<Rightarrow> bool \<Rightarrow> bool" where
  "meetEndedAfterJoinPageCheck p hasJoinedBefore =
     (if pageContainsAny p (meetEndIndicators hasJoinedBefore) then True
      else if meetRedirected p hasJoinedBefore then True
      else False)"

text \<open>The probe for the join page is outside every \<open>try\<close>: its throw leaves the method.\<close>

definition GoogleMeet_checkMeetingEnded :: "page \<Rightarrow> bool \<Rightarrow> bool result" where
  "GoogleMeet_checkMeetingEnded p hasJoinedBefore =
     (if \<not> hasJoinedBefore then
        (case pg_query p ''[aria-label=\"Join now\"]'' of
           Throws \<Rightarrow> Throws
         | Returns onJoinPage \<Rightarrow>
             if onJoinPage then Returns False
             else Returns (meetEndedAfterJoinPageCheck p hasJoinedBefore))
      else Returns (meetEndedAfterJoinPageCheck p hasJoinedBefore))"

subsection \<open>WhatsApp (platforms/whatsapp.js)\<close>

definition whatsappEndPatterns :: "string list" where
  "whatsappEndPatterns =
   [''call ended'',
    ''call was missed'',
    ''call failed'',
    ''unavailable'',
    ''no answer'',
    [CHR 0xD7, CHR 0xA9, CHR 0xD7, CHR 0x99, CHR 0xD7, CHR 0x97, CHR 0xD7, CHR 0x94] @ '' ''
      @ [CHR 0xD7, CHR 0x94, CHR 0xD7, CHR 0xA1, CHR 0xD7, CHR 0xAA, CHR 0xD7, CHR 0x99, CHR 0xD7, CHR 0x99, CHR 0xD7, CHR 0x9E, CHR 0xD7, CHR 0x94],
    [CHR 0xD7, CHR 0x94, CHR 0xD7, CHR 0xA9, CHR 0xD7, CHR 0x99, CHR 0xD7, CHR 0x97, CHR 0xD7, CHR 0x94] @ '' ''
      @ [CHR 0xD7, CHR 0x94, CHR 0xD7, CHR 0xA1, CHR 0xD7, CHR 0xAA, CHR 0xD7, CHR 0x99, CHR 0xD7, CHR 0x99, CHR 0xD7, CHR 0x9E, CHR 0xD7, CHR 0x94],
    [CHR 0xD7, CHR 0xA9, CHR 0xD7, CHR 0x99, CHR 0xD7, CHR 0x97, CHR 0xD7, CHR 0x94] @ '' ''
      @ [CHR 0xD7, CHR 0xA9, CHR 0xD7, CHR 0x9C, CHR 0xD7, CHR 0x90] @ '' ''
      @ [CHR 0xD7, CHR 0xA0, CHR 0xD7, CHR 0xA2, CHR 0xD7, CHR 0xA0, CHR 0xD7, CHR 0xAA, CHR 0xD7, CHR 0x94]]"

definition whatsappHasEndBtn :: "page \<Rightarrow> bool" where
  "whatsappHasEndBtn p =
     list_ex (\<lambda>dataIcon. str_includes dataIcon ''call-end'' \<or> str_includes dataIcon ''end-call''
                          \<or> str_includes dataIcon ''hangup'') (pg_dataIcons p)"

definition whatsappHasMainUI :: "page \<Rightarrow> bool" where
  "whatsappHasMainUI p =
     (str_includes (pg_innerMarkup p) ''pane-side''
      \<or> str_includes (pg_innerMarkup p) ''data-icon=\"search\"''
      \<or> str_includes (pg_innerMarkup p) ''role=\"grid\"'')"

definition WhatsApp_checkCallEnded :: "page \<Rightarrow> bool \<Rightarrow> bool" where
  "WhatsApp_checkCallEnded p hasJoinedBefore =
     (case pg_innerText p of
        Throws \<Rightarrow> hasJoinedBefore
      | Returns text \<Rightarrow>
          if containsAny (toLowerCase text) whatsappEndPatterns then True
          else if \<not> whatsappHasEndBtn p \<and> whatsappHasMainUI p then True
          else False)"

text \<open>\<open>checkMeetingEnded(hasJoinedBefore)\<close> of the adapter the resolver chose.\<close>

fun checkMeetingEnded :: "platform \<Rightarrow> page \<Rightarrow> bool \<Rightarrow> bool result" where
  "checkMeetingEnded GoogleMeet p hasJoinedBefore = GoogleMeet_checkMeetingEnded p hasJoinedBefore"
| "checkMeetingEnded Zoom p hasJoinedBefore = Returns (Zoom_checkMeetingEnded p hasJoinedBefore)"
| "checkMeetingEnded WhatsApp p hasJoinedBefore = Returns (WhatsApp_checkCallEnded p hasJoinedBefore)"

text \<open>
  The generic in-session interface the adapter looks for: the meeting room of Zoom, the
  hang-up button of a WhatsApp call.
\<close>

definition zoomSessionUiAbsent :: "page \<Rightarrow> bool" where
  "zoomSessionUiAbsent p = (\<not> Zoom_isInMeetingRoom p)"

definition whatsappSessionUiAbsent :: "page \<Rightarrow> bool" where
  "whatsappSessionUiAbsent p = (\<not> whatsappHasEndBtn p)"

text \<open>
  A WhatsApp Web page right after a call was answered: the chat list is on screen, the
  call screen with its hang-up button has not been drawn yet, nothing says the call ended.
\<close>

definition chatListPage :: page where
  "chatListPage =
     \<lparr> pg_content = Returns ''<div id=\"pane-side\"><span>Chats</span></div>'',
       pg_innerText = Returns ''Chats'',
       pg_innerMarkup = ''<div id=\"pane-side\"><span>Chats</span></div>'',
       pg_url = Returns ''https://web.whatsapp.com/'',
       pg_query = (\<lambda>sel. Returns False),
       pg_dataIcons = [''search''] \<rparr>"

section \<open>Concrete collaborators for the worked examples\<close>

text \<open>
  An adapter and a browser on which every call returns, a recording that receives audio,
  and a transcription script that writes a transcript.
\<close>

definition stubEnv :: env where
  "stubEnv =
     \<lparr> connect = Returns (), setupAudioHooks = Returns (),
       outputDir = ''/root/meeting-transcripts/2026/01/2026-01-05_090000_standup'',
       goto = Returns (), dismissPopups = (\<lambda>n. Returns ()), enterName = Returns True,
       muteMedia = Returns (), clickJoin = Returns True,
       waitForAdmission = Returns NotWaiting, verifyInMeeting = Returns True,
       finalChunks = Returns [2048], unlinkSucceeds = True,
       transcribeScript = Returns (Some ''hello''), writeSessionFile = Returns () \<rparr>"

definition stubTick :: "int \<Rightarrow> int \<Rightarrow> tick" where
  "stubTick now n =
     \<lparr> tk_chunks = Returns [4096], tk_ended = (\<lambda>hasJoinedBefore. Returns False),
       tk_count = Returns n, tk_now = now \<rparr>"

definition stubRecordingPath :: string where
  "stubRecordingPath = ''/root/meeting-transcripts/2026/01/2026-01-05_090000_standup/audio.webm''"

text \<open>A Google Meet page on which every probe throws, as while the tab navigates.\<close>

definition crashedPage :: page where
  "crashedPage =
     \<lparr> pg_content = Throws, pg_innerText = Throws, pg_innerMarkup = [], pg_url = Throws,
       pg_query = (\<lambda>sel. Throws), pg_dataIcons = [] \<rparr>"

text \<open>A bot that has joined its meeting and is recording.\<close>

definition joinedBot :: bot where
  "joinedBot =
     (newMeetingBot Map.empty)
       \<lparr> attached := True, adapter := Some GoogleMeet,
         recordingPath := Some stubRecordingPath, meetingName := Some ''standup'',
         isInMeeting := True, hasJoinedMeeting := True,
         platformName := Some ''google-meet'', audioSaveInterval := True \<rparr>"

definition meetUrl :: string where
  "meetUrl = ''https://meet.google.com/abc-defg-hij''"

definition zoomUrl :: string where
  "zoomUrl = ''https://zoom.us/j/123456789?pwd=abc123''"

text \<open>A Zoom meeting that ends while the bot sits in the waiting room.\<close>

definition endedInWaitingRoomEnv :: env where
  "endedInWaitingRoomEnv = stubEnv\<lparr>waitForAdmission := Returns Ended, finalChunks := Returns []\<rparr>"

text \<open>A Google Meet join that \<open>verifyInMeeting\<close> could not confirm.\<close>

definition unconfirmedEnv :: env where
  "unconfirmedEnv = stubEnv\<lparr>verifyInMeeting := Returns False\<rparr>"

text \<open>A pass of the loop during which the Google Meet tab does not answer.\<close>

definition crashTick :: tick where
  "crashTick =
     \<lparr> tk_chunks = Throws, tk_ended = checkMeetingEnded GoogleMeet crashedPage,
       tk_count = Returns 2, tk_now = 6000 \<rparr>"

text \<open>Chrome is not running: \<open>puppeteer.connect\<close> rejects.\<close>

definition noBrowserEnv :: env where
  "noBrowserEnv = stubEnv\<lparr>connect := Throws\<rparr>"

definition noBrowserWatcherEnv :: watcher_env where
  "noBrowserWatcherEnv =
     \<lparr> pidFile = ''/tmp/whatsapp-watcher.pid'', connectBrowser = Throws,
       ensureWhatsAppOpen = True, waitForAuth = True \<rparr>"

text \<open>A pass of the loop in which \<open>getParticipantCount\<close> throws.\<close>

definition countThrowsTick :: tick where
  "countThrowsTick = (stubTick 6000 0)\<lparr>tk_count := Throws\<rparr>"

text \<open>A bot that entered the monitoring loop without a confirmed join.\<close>

definition unconfirmedBot :: bot where
  "unconfirmedBot = joinedBot\<lparr>hasJoinedMeeting := False\<rparr>"

text \<open>A bot whose empty timer was started at time 1000.\<close>

definition emptyTimerBot :: bot where
  "emptyTimerBot = joinedBot\<lparr>emptyMeetingSince := Some 1000\<rparr>"

text \<open>A configuration file that sets the empty timeout to 0 minutes.\<close>

definition zeroTimeoutConfig :: config where
  "zeroTimeoutConfig = DEFAULTS\<lparr>emptyTimeoutMinutes := Some 0\<rparr>"

text \<open>A configuration file that sets the empty timeout to 2 minutes.\<close>

definition twoMinuteConfig :: config where
  "twoMinuteConfig = DEFAULTS\<lparr>emptyTimeoutMinutes := Some 2\<rparr>"

text \<open>The join button cannot be clicked: \<open>clickJoin\<close> throws.\<close>

definition clickJoinThrowsEnv :: env where
  "clickJoinThrowsEnv = stubEnv\<lparr>clickJoin := Throws\<rparr>"

text \<open>The session record cannot be written: \<open>fs.writeFileSync\<close> throws.\<close>

definition diskFullEnv :: env where
  "diskFullEnv = stubEnv\<lparr>writeSessionFile := Throws\<rparr>"

section \<open>Vocabulary of the statements\<close>

text \<open>The calls that \<open>cleanup\<close> makes.\<close>

definition cleanupEvent :: "event \<Rightarrow> bool" where
  "cleanupEvent ev =
     (case ev of
        EvStopRecording \<Rightarrow> True
      | EvTranscribe p \<Rightarrow> True
      | EvUnlink p \<Rightarrow> True
      | EvGenerateMetadata p \<Rightarrow> True
      | EvWriteSession p \<Rightarrow> True
      | EvExit n \<Rightarrow> True
      | _ \<Rightarrow> False)"

text \<open>No audio data is stored under the path.\<close>

definition noRecordedAudio :: "bot \<Rightarrow> string \<Rightarrow> bool" where
  "noRecordedAudio s p = (case fs s p of Some (Audio n) \<Rightarrow> n = 0 | _ \<Rightarrow> True)"

text \<open>
  The recording is gone from the disk: nothing is stored under the path, or what is
  stored there is the empty file for which \<open>stopRecording\<close> has dropped the recording
  path ("recording is empty (0 bytes)").
\<close>

definition recordingGone :: "bot \<Rightarrow> string \<Rightarrow> bool" where
  "recordingGone s p =
     (case fs s p of None \<Rightarrow> True | Some f \<Rightarrow> \<not> nonEmptyFile f \<and> recordingPath s = None)"

text \<open>Every call of the join flow before the admission step returns.\<close>

definition joinFlowReturns :: "config \<Rightarrow> env \<Rightarrow> bool" where
  "joinFlowReturns cfg e =
     (connect e \<noteq> Throws \<and> setupAudioHooks e \<noteq> Throws \<and> goto e \<noteq> Throws
      \<and> dismissPopups e 1 \<noteq> Throws \<and> dismissPopups e 2 \<noteq> Throws
      \<and> dismissPopups e 3 \<noteq> Throws
      \<and> (googleAccountEnabled cfg \<or> enterName e \<noteq> Throws)
      \<and> muteMedia e \<noteq> Throws \<and> clickJoin e \<noteq> Throws)"

text \<open>The calls \<open>run\<close> has made when it reaches the admission step.\<close>

definition joinPrefixTrace :: "config \<Rightarrow> platform \<Rightarrow> string \<Rightarrow> string \<Rightarrow> event list" where
  "joinPrefixTrace cfg a url name =
     [EvConnect, EvSetupAudio, EvStartRecording name, EvGoto (normalizeUrl a url),
      EvDismissPopups]
     @ (if googleAccountEnabled cfg then [] else [EvEnterName])
     @ [EvMuteMedia, EvDismissPopups, EvClickJoin, EvDismissPopups]"

text \<open>The events of the ACTIVE and MONITORING phases.\<close>

definition activeOrMonitoringEvent :: "event \<Rightarrow> bool" where
  "activeOrMonitoringEvent ev =
     (case ev of
        EvRouteAudio \<Rightarrow> True
      | EvVerifyInMeeting \<Rightarrow> True
      | EvCheckMeetingEnded b \<Rightarrow> True
      | EvGetParticipantCount \<Rightarrow> True
      | _ \<Rightarrow> False)"

definition isStartRecording :: "event \<Rightarrow> bool" where
  "isStartRecording ev = (case ev of EvStartRecording n \<Rightarrow> True | _ \<Rightarrow> False)"

text \<open>
  Some adapter call of the join flow throws: the navigation, a \<open>dismissPopups\<close>,
  \<open>enterName\<close> (called unless the Google account is in use), \<open>muteMedia\<close>,
  \<open>clickJoin\<close>, \<open>waitForAdmission\<close> (called when the adapter has it) or \<open>verifyInMeeting\<close>
  (called when the adapter has no waiting room or reports that the bot is not waiting).
\<close>

definition joinCallThrows :: "config \<Rightarrow> env \<Rightarrow> platform \<Rightarrow> bool" where
  "joinCallThrows cfg e a =
     (goto e = Throws \<or> dismissPopups e 1 = Throws
      \<or> (\<not> googleAccountEnabled cfg \<and> enterName e = Throws)
      \<or> muteMedia e = Throws \<or> dismissPopups e 2 = Throws \<or> clickJoin e = Throws
      \<or> dismissPopups e 3 = Throws
      \<or> (hasWaitForAdmission a \<and> waitForAdmission e = Throws)
      \<or> ((\<not> hasWaitForAdmission a \<or> waitForAdmission e = Returns NotWaiting)
          \<and> verifyInMeeting e = Throws))"

text \<open>
  A session with the given status that is not in a meeting: the audio was never routed
  and the monitoring loop has made no pass.
\<close>

definition outsideMeeting :: "status \<Rightarrow> bot \<Rightarrow> bool" where
  "outsideMeeting st s =
     (status s = st \<and> \<not> isInMeeting s \<and> EvRouteAudio \<notin> set (trace s)
      \<and> (\<forall>j. EvCheckMeetingEnded j \<notin> set (trace s)))"

text \<open>The steps of \<open>run\<close> before the monitoring loop.\<close>

definition joinedState :: "config \<Rightarrow> env \<Rightarrow> string \<Rightarrow> string \<Rightarrow> bot \<Rightarrow> bot" where
  "joinedState cfg e url name s =
     runSteps [init e, setupAudio e, startRecording e name, joinMeeting cfg e url] s"

section \<open>Properties of the string functions\<close>



lemma toLowerCase_Nil: "toLowerCase s = [] \<longleftrightarrow> s = []"
  by (simp add: toLowerCase_def)

lemma str_includes_iff: "str_includes s p \<longleftrightarrow> (\<exists>a b. s = a @ p @ b)"
proof (induction s)
  case Nil
  show ?case by auto
next
  case (Cons c t)
  show ?case
  proof
    assume "str_includes (c # t) p"
    then consider "prefix p (c # t)" | "str_includes t p" by auto
    then show "\<exists>a b. c # t = a @ p @ b"
    proof cases
      case 1
      then obtain b where "c # t = p @ b" by (auto simp: prefix_def)
      then have "c # t = [] @ p @ b" by simp
      then show ?thesis by blast
    next
      case 2
      with Cons obtain a b where "t = a @ p @ b" by blast
      then have "c # t = (c # a) @ p @ b" by simp
      then show ?thesis by blast
    qed
  next
    assume "\<exists>a b. c # t = a @ p @ b"
    then obtain a b where ab: "c # t = a @ p @ b" by blast
    show "str_includes (c # t) p"
    proof (cases a)
      case Nil
      with ab have "prefix p (c # t)" by (simp add: prefix_def)
      then show ?thesis by simp
    next
      case (Cons x a')
      with ab have "t = a' @ p @ b" by simp
      with Cons.IH have "str_includes t p" by blast
      then show ?thesis by simp
    qed
  qed
qed

lemma str_includes_middle: "str_includes (a @ p @ b) p"
  unfolding str_includes_iff by blast

lemma str_includes_lower:
  assumes "str_includes c p"
  shows "str_includes (toLowerCase c) (toLowerCase p)"
proof -
  from assms obtain a b where "c = a @ p @ b"
    unfolding str_includes_iff by blast
  then have "toLowerCase c = toLowerCase a @ toLowerCase p @ toLowerCase b"
    by (simp add: toLowerCase_def)
  then show ?thesis
    unfolding str_includes_iff by blast
qed



lemma isCallerAllowed_Some:
  "isCallerAllowed (Some c) allow block =
     (if c = [] then allow = []
      else if \<exists>p\<in>set block. callerMatches c p then False
      else if allow = [] then True
      else \<exists>p\<in>set allow. callerMatches c p)"
  by (simp add: isCallerAllowed_def callerMatches_def list_ex_iff)


section \<open>Wildcard patterns\<close>

text \<open>
  C8. Wildcard pattern matching (\<open>_matchPattern\<close>): the pattern \<open>+1*\<close> matches the
  caller string \<open>+15551234567\<close> and does not match \<open>+447700900000\<close>; the pattern
  \<open>*\<close> matches every caller string, the empty string included.
\<close>

theorem matchPattern_wildcard:
  "matchPattern ''+15551234567'' ''+1*''
   \<and> \<not> matchPattern ''+447700900000'' ''+1*''
   \<and> (\<forall>s. matchPattern s ''*'')
   \<and> matchPattern [] ''*''"
  by (simp add: matchPattern_def escapePattern_def regexSpecial_def isLineTerminator_def)

section \<open>Allow and block evaluation\<close>

text \<open>
  C7. Allow/block evaluation (\<open>isCallerAllowed\<close>, as the watcher uses it), for every
  caller identifier: a caller that matches both an allow pattern and a block pattern is
  declined (the block list takes precedence); a caller that matches neither list is
  declined when the allow list is non-empty and answered when the allow list is empty.
  "Declined" is the result \<open>False\<close> of \<open>isCallerAllowed\<close>, on which the watcher calls
  \<open>declineCall\<close>; "answered" is the result \<open>True\<close>.
\<close>

theorem isCallerAllowed_evaluation:
  "((\<exists>a\<in>set allowList. callerMatches c a) \<and> (\<exists>b\<in>set blockList. callerMatches c b)
      \<longrightarrow> \<not> isCallerAllowed (Some c) allowList blockList)
   \<and> ((\<forall>a\<in>set allowList. \<not> callerMatches c a) \<and> (\<forall>b\<in>set blockList. \<not> callerMatches c b)
        \<and> allowList \<noteq> []
      \<longrightarrow> \<not> isCallerAllowed (Some c) allowList blockList)
   \<and> ((\<forall>a\<in>set allowList. \<not> callerMatches c a) \<and> (\<forall>b\<in>set blockList. \<not> callerMatches c b)
        \<and> allowList = []
      \<longrightarrow> isCallerAllowed (Some c) allowList blockList)"
proof (intro conjI impI)
  assume "(\<exists>a\<in>set allowList. callerMatches c a) \<and> (\<exists>b\<in>set blockList. callerMatches c b)"
  then have "allowList \<noteq> []" and "\<exists>b\<in>set blockList. callerMatches c b" by auto
  then show "\<not> isCallerAllowed (Some c) allowList blockList"
    by (simp add: isCallerAllowed_Some)
next
  assume "(\<forall>a\<in>set allowList. \<not> callerMatches c a) \<and> (\<forall>b\<in>set blockList. \<not> callerMatches c b)
          \<and> allowList \<noteq> []"
  then show "\<not> isCallerAllowed (Some c) allowList blockList"
    by (simp add: isCallerAllowed_Some)
next
  assume "(\<forall>a\<in>set allowList. \<not> callerMatches c a) \<and> (\<forall>b\<in>set blockList. \<not> callerMatches c b)
          \<and> allowList = []"
  then show "isCallerAllowed (Some c) allowList blockList"
    by (simp add: isCallerAllowed_Some)
qed

theorem isCallerAllowed_evaluation_witness:
  "(callerMatches ''+15551234567'' ''+1*'' \<and> callerMatches ''+15551234567'' ''+1555*''
      \<and> \<not> isCallerAllowed (Some ''+15551234567'') [''+1*'', ''+44*''] [''+1555*''])
   \<and> (\<not> callerMatches ''+33123456789'' ''+1*'' \<and> \<not> callerMatches ''+33123456789'' ''+44*''
      \<and> \<not> callerMatches ''+33123456789'' ''+1555*''
      \<and> \<not> isCallerAllowed (Some ''+33123456789'') [''+1*'', ''+44*''] [''+1555*''])
   \<and> isCallerAllowed (Some ''+33123456789'') [] [''+1555*'']"
proof -
  note ev = callerMatches_def toLowerCase_def toLowerChar_def matchPattern_def
    escapePattern_def regexSpecial_def isLineTerminator_def
  have a1: "callerMatches ''+15551234567'' ''+1*''" by (simp add: ev)
  have a2: "callerMatches ''+15551234567'' ''+1555*''" by (simp add: ev)
  have n1: "\<not> callerMatches ''+33123456789'' ''+1*''" by (simp add: ev)
  have n2: "\<not> callerMatches ''+33123456789'' ''+44*''" by (simp add: ev)
  have n3: "\<not> callerMatches ''+33123456789'' ''+1555*''" by (simp add: ev)
  have h1: "(\<exists>a\<in>set [''+1*'', ''+44*'']. callerMatches ''+15551234567'' a)
            \<and> (\<exists>b\<in>set [''+1555*'']. callerMatches ''+15551234567'' b)"
    using a1 a2 by simp
  have h2: "(\<forall>a\<in>set [''+1*'', ''+44*'']. \<not> callerMatches ''+33123456789'' a)
            \<and> (\<forall>b\<in>set [''+1555*'']. \<not> callerMatches ''+33123456789'' b)
            \<and> [''+1*'', ''+44*''] \<noteq> []"
    using n1 n2 n3 by simp
  have h3: "(\<forall>a\<in>set []. \<not> callerMatches ''+33123456789'' a)
            \<and> (\<forall>b\<in>set [''+1555*'']. \<not> callerMatches ''+33123456789'' b)
            \<and> ([] :: string list) = []"
    using n3 by simp
  have r1: "\<not> isCallerAllowed (Some ''+15551234567'') [''+1*'', ''+44*''] [''+1555*'']"
    using isCallerAllowed_evaluation [of "[''+1*'', ''+44*'']" "''+15551234567''" "[''+1555*'']"] h1
    by blast
  have r2: "\<not> isCallerAllowed (Some ''+33123456789'') [''+1*'', ''+44*''] [''+1555*'']"
    using isCallerAllowed_evaluation [of "[''+1*'', ''+44*'']" "''+33123456789''" "[''+1555*'']"] h2
    by blast
  have r3: "isCallerAllowed (Some ''+33123456789'') [] [''+1555*'']"
    using isCallerAllowed_evaluation [of "[]" "''+33123456789''" "[''+1555*'']"] h3
    by blast
  from a1 a2 n1 n2 n3 r1 r2 r3 show ?thesis by blast
qed



section \<open>URL normalisation\<close>

lemma Zoom_normalizeUrl_example:
  "Zoom_normalizeUrl ''https://zoom.us/j/123456789?pwd=abc123''
     = ''https://zoom.us/wc/join/123456789?pwd=abc123''"
  by (simp add: Zoom_normalizeUrl_def zoomJoinMatchAt_def isDigit_def isLineTerminator_def)

lemma Zoom_normalizeUrl_idem: "Zoom_normalizeUrl (Zoom_normalizeUrl u) = Zoom_normalizeUrl u"
proof (cases "str_includes u ''/wc/join/''")
  case True
  then show ?thesis by (simp add: Zoom_normalizeUrl_def)
next
  case False
  show ?thesis
  proof (cases "zoomJoinMatch u")
    case None
    with False show ?thesis by (simp add: Zoom_normalizeUrl_def)
  next
    case (Some m)
    obtain host meetingId rest where m: "m = (host, meetingId, rest)"
      by (cases m) auto
    from False Some m have r: "Zoom_normalizeUrl u = host @ ''/wc/join/'' @ (meetingId @ rest)"
      by (simp add: Zoom_normalizeUrl_def)
    have "str_includes (host @ ''/wc/join/'' @ (meetingId @ rest)) ''/wc/join/''"
      by (rule str_includes_middle)
    then have "Zoom_normalizeUrl (host @ ''/wc/join/'' @ (meetingId @ rest))
               = host @ ''/wc/join/'' @ (meetingId @ rest)"
      unfolding Zoom_normalizeUrl_def by (rule if_P)
    with r show ?thesis by simp
  qed
qed

text \<open>
  C9. For every adapter (the base default that Google Meet inherits, Zoom, WhatsApp) and
  every input URL \<open>u\<close>, \<open>normalizeUrl\<close> is idempotent:
  \<open>normalizeUrl(normalizeUrl(u))\<close> equals \<open>normalizeUrl(u)\<close>.
\<close>

theorem normalizeUrl_idempotent:
  "normalizeUrl a (normalizeUrl a u) = normalizeUrl a u"
  by (cases a) (simp_all add: Base_normalizeUrl_def WhatsApp_normalizeUrl_def Zoom_normalizeUrl_idem)

section \<open>Cleanup: what it calls and what it leaves on disk\<close>

lemma appendChunks_fields:
  "trace (appendChunks c s) = trace s"
  "status (appendChunks c s) = status s"
  "recordingPath (appendChunks c s) = recordingPath s"
  "isInMeeting (appendChunks c s) = isInMeeting s"
  "hasJoinedMeeting (appendChunks c s) = hasJoinedMeeting s"
  "leftDueToEmptyTimeout (appendChunks c s) = leftDueToEmptyTimeout s"
  "emptyMeetingSince (appendChunks c s) = emptyMeetingSince s"
  "platformName (appendChunks c s) = platformName s"
  "audioSaveInterval (appendChunks c s) = audioSaveInterval s"
  "attached (appendChunks c s) = attached s"
  by (simp_all add: appendChunks_def split: option.splits)

lemma finalFlush_fields:
  "trace (finalFlush e s) = trace s"
  "status (finalFlush e s) = status s"
  "recordingPath (finalFlush e s) = recordingPath s"
  "isInMeeting (finalFlush e s) = isInMeeting s"
  "hasJoinedMeeting (finalFlush e s) = hasJoinedMeeting s"
  "leftDueToEmptyTimeout (finalFlush e s) = leftDueToEmptyTimeout s"
  "emptyMeetingSince (finalFlush e s) = emptyMeetingSince s"
  "platformName (finalFlush e s) = platformName s"
  by (simp_all add: finalFlush_def appendChunks_fields split: result.splits)

lemma checkRecordingFile_fields:
  "trace (checkRecordingFile s) = trace s"
  "status (checkRecordingFile s) = status s"
  "fs (checkRecordingFile s) = fs s"
  "isInMeeting (checkRecordingFile s) = isInMeeting s"
  "hasJoinedMeeting (checkRecordingFile s) = hasJoinedMeeting s"
  "leftDueToEmptyTimeout (checkRecordingFile s) = leftDueToEmptyTimeout s"
  "emptyMeetingSince (checkRecordingFile s) = emptyMeetingSince s"
  "platformName (checkRecordingFile s) = platformName s"
  by (simp_all add: checkRecordingFile_def split: option.splits)

lemma stopRecording_trace: "trace (stopRecording e s) = trace s @ [EvStopRecording]"
  by (simp add: stopRecording_def checkRecordingFile_fields finalFlush_fields logCall_def)

lemma stopRecording_status: "status (stopRecording e s) = status s"
  by (simp add: stopRecording_def checkRecordingFile_fields finalFlush_fields logCall_def)

lemma stopRecording_flags:
  "isInMeeting (stopRecording e s) = isInMeeting s"
  "hasJoinedMeeting (stopRecording e s) = hasJoinedMeeting s"
  "leftDueToEmptyTimeout (stopRecording e s) = leftDueToEmptyTimeout s"
  "emptyMeetingSince (stopRecording e s) = emptyMeetingSince s"
  "platformName (stopRecording e s) = platformName s"
  by (simp_all add: stopRecording_def checkRecordingFile_fields finalFlush_fields logCall_def)

lemma checkRecordingFile_kept_on_disk:
  assumes "recordingPath (checkRecordingFile s) = Some p" and "suffix ''.webm'' p"
  shows "fs s p \<noteq> None"
proof (cases "recordingPath s")
  case None
  with assms show ?thesis by (simp add: checkRecordingFile_def)
next
  case (Some q)
  show ?thesis
  proof (cases "fs s q")
    case None
    with Some assms show ?thesis by (auto simp: checkRecordingFile_def split: if_splits)
  next
    case (Some f)
    with \<open>recordingPath s = Some q\<close> assms show ?thesis
      by (auto simp: checkRecordingFile_def split: if_splits)
  qed
qed

lemma checkRecordingFile_path_cases:
  assumes "recordingPath s = Some p"
  shows "recordingPath (checkRecordingFile s) = Some p
         \<or> (recordingPath (checkRecordingFile s) = None \<and> suffix ''.webm'' p
             \<and> noRecordedAudio (checkRecordingFile s) p)"
proof (cases "suffix ''.webm'' p")
  case False
  with assms show ?thesis by (simp add: checkRecordingFile_def)
next
  case True
  show ?thesis
  proof (cases "fs s p")
    case None
    with True assms show ?thesis
      by (simp add: checkRecordingFile_def noRecordedAudio_def)
  next
    case (Some f)
    show ?thesis
    proof (cases "nonEmptyFile f")
      case True
      with Some \<open>suffix ''.webm'' p\<close> assms show ?thesis by (simp add: checkRecordingFile_def)
    next
      case False
      then have "case f of Audio n \<Rightarrow> n = 0 | _ \<Rightarrow> True"
        by (cases f) (simp_all add: nonEmptyFile_def)
      with False Some True assms show ?thesis
        by (simp add: checkRecordingFile_def noRecordedAudio_def)
    qed
  qed
qed

lemma stopRecording_kept_on_disk:
  assumes "recordingPath (stopRecording e s) = Some p" and "suffix ''.webm'' p"
  shows "fs (stopRecording e s) p \<noteq> None"
  using checkRecordingFile_kept_on_disk[of _ p] assms
  by (simp add: stopRecording_def checkRecordingFile_fields)

lemma stopRecording_path_cases:
  assumes "recordingPath s = Some p"
  shows "recordingPath (stopRecording e s) = Some p
         \<or> (recordingPath (stopRecording e s) = None \<and> suffix ''.webm'' p
             \<and> noRecordedAudio (stopRecording e s) p)"
proof -
  have "recordingPath (finalFlush e ((logCall EvStopRecording s)\<lparr>audioSaveInterval := False\<rparr>))
        = Some p"
    using assms by (simp add: finalFlush_fields logCall_def)
  then show ?thesis
    unfolding stopRecording_def by (rule checkRecordingFile_path_cases)
qed

lemma deleteRecording_trace:
  "\<exists>es. trace (deleteRecording e s) = trace s @ es \<and> set es \<subseteq> range EvUnlink"
  by (auto simp: deleteRecording_def logCall_def split: option.splits)

lemma deleteRecording_flags:
  "isInMeeting (deleteRecording e s) = isInMeeting s"
  "hasJoinedMeeting (deleteRecording e s) = hasJoinedMeeting s"
  "leftDueToEmptyTimeout (deleteRecording e s) = leftDueToEmptyTimeout s"
  "emptyMeetingSince (deleteRecording e s) = emptyMeetingSince s"
  "platformName (deleteRecording e s) = platformName s"
  "recordingPath (deleteRecording e s) = recordingPath s"
  "status (deleteRecording e s) = status s"
  by (simp_all add: deleteRecording_def logCall_def split: option.splits)

lemma transcribe_trace:
  "\<exists>es. trace (snd (transcribe e s)) = trace s @ es \<and> set es \<subseteq> range EvTranscribe"
  by (auto simp: transcribe_def logCall_def Let_def split: option.splits result.splits)

lemma transcribe_flags:
  "isInMeeting (snd (transcribe e s)) = isInMeeting s"
  "hasJoinedMeeting (snd (transcribe e s)) = hasJoinedMeeting s"
  "leftDueToEmptyTimeout (snd (transcribe e s)) = leftDueToEmptyTimeout s"
  "emptyMeetingSince (snd (transcribe e s)) = emptyMeetingSince s"
  "platformName (snd (transcribe e s)) = platformName s"
  "recordingPath (snd (transcribe e s)) = recordingPath s"
  "status (snd (transcribe e s)) = status s"
  by (simp_all add: transcribe_def logCall_def Let_def split: option.splits result.splits)


lemma transcribeOrSkip_trace:
  "\<exists>es. trace (snd (transcribeOrSkip cfg e s)) = trace s @ es
        \<and> set es \<subseteq> range EvUnlink \<union> range EvTranscribe
        \<and> (skipTranscription cfg s \<longrightarrow> (\<forall>p. EvTranscribe p \<notin> set es))"
proof (cases "skipTranscription cfg s")
  case True
  from deleteRecording_trace[of e s] obtain es where
    "trace (deleteRecording e s) = trace s @ es" "set es \<subseteq> range EvUnlink" by blast
  with True show ?thesis by (auto simp: transcribeOrSkip_def)
next
  case False
  from transcribe_trace[of e s] obtain es where
    "trace (snd (transcribe e s)) = trace s @ es" "set es \<subseteq> range EvTranscribe" by blast
  with False show ?thesis by (auto simp: transcribeOrSkip_def)
qed

lemma transcribeOrSkip_flags:
  "isInMeeting (snd (transcribeOrSkip cfg e s)) = isInMeeting s"
  "hasJoinedMeeting (snd (transcribeOrSkip cfg e s)) = hasJoinedMeeting s"
  "leftDueToEmptyTimeout (snd (transcribeOrSkip cfg e s)) = leftDueToEmptyTimeout s"
  "emptyMeetingSince (snd (transcribeOrSkip cfg e s)) = emptyMeetingSince s"
  "platformName (snd (transcribeOrSkip cfg e s)) = platformName s"
  "recordingPath (snd (transcribeOrSkip cfg e s)) = recordingPath s"
  "status (snd (transcribeOrSkip cfg e s)) = status s"
  by (simp_all add: transcribeOrSkip_def transcribe_flags deleteRecording_flags)

lemma generateMetadataStep_trace:
  "\<exists>es. trace (generateMetadataStep s) = trace s @ es \<and> set es \<subseteq> range EvGenerateMetadata"
  by (auto simp: generateMetadataStep_def logCall_def split: option.splits)

lemma generateMetadataStep_flags:
  "isInMeeting (generateMetadataStep s) = isInMeeting s"
  "hasJoinedMeeting (generateMetadataStep s) = hasJoinedMeeting s"
  "leftDueToEmptyTimeout (generateMetadataStep s) = leftDueToEmptyTimeout s"
  "emptyMeetingSince (generateMetadataStep s) = emptyMeetingSince s"
  "platformName (generateMetadataStep s) = platformName s"
  "recordingPath (generateMetadataStep s) = recordingPath s"
  "status (generateMetadataStep s) = status s"
  "fs (generateMetadataStep s) = fs s"
  by (simp_all add: generateMetadataStep_def logCall_def split: option.splits)

lemma writeSessionAndExit_fields:
  "isInMeeting (writeSessionAndExit e tr s) = isInMeeting s"
  "hasJoinedMeeting (writeSessionAndExit e tr s) = hasJoinedMeeting s"
  "leftDueToEmptyTimeout (writeSessionAndExit e tr s) = leftDueToEmptyTimeout s"
  "emptyMeetingSince (writeSessionAndExit e tr s) = emptyMeetingSince s"
  "recordingPath (writeSessionAndExit e tr s) = recordingPath s"
  by (simp_all add: writeSessionAndExit_def logCall_def split: result.splits)

lemma writeSessionAndExit_status:
  "status (writeSessionAndExit e tr s) = (if writeSessionFile e = Throws then Thrown else Exited 0)"
  by (simp add: writeSessionAndExit_def logCall_def split: result.splits)

lemma writeSessionAndExit_trace:
  "\<exists>w. trace (writeSessionAndExit e tr s) = trace s @ w
       \<and> set w \<subseteq> range EvWriteSession \<union> range EvExit"
proof (cases "writeSessionFile e")
  case Throws
  then have "trace (writeSessionAndExit e tr s) = trace s @ [EvWriteSession (sessionFileOf s)]"
    by (simp add: writeSessionAndExit_def logCall_def)
  then show ?thesis by auto
next
  case (Returns u)
  then have "trace (writeSessionAndExit e tr s)
             = trace s @ [EvWriteSession (sessionFileOf s), EvExit 0]"
    by (simp add: writeSessionAndExit_def)
  then show ?thesis by auto
qed

lemma cleanup_unfold:
  "cleanup cfg e s =
     writeSessionAndExit e (fst (transcribeOrSkip cfg e (stopRecording e s)))
       (generateMetadataStep (snd (transcribeOrSkip cfg e (stopRecording e s))))"
  by (simp add: cleanup_def Let_def split: prod.splits)

lemma cleanup_status:
  "status (cleanup cfg e s) = (if writeSessionFile e = Throws then Thrown else Exited 0)"
  by (simp add: cleanup_unfold writeSessionAndExit_status)

lemma cleanup_not_running: "status (cleanup cfg e s) \<noteq> Running"
  by (simp add: cleanup_status)

lemma cleanup_flags:
  "isInMeeting (cleanup cfg e s) = isInMeeting s"
  "hasJoinedMeeting (cleanup cfg e s) = hasJoinedMeeting s"
  "leftDueToEmptyTimeout (cleanup cfg e s) = leftDueToEmptyTimeout s"
  "emptyMeetingSince (cleanup cfg e s) = emptyMeetingSince s"
  by (simp_all add: cleanup_unfold writeSessionAndExit_fields generateMetadataStep_flags
        transcribeOrSkip_flags stopRecording_flags)

lemma cleanup_recordingPath:
  "recordingPath (cleanup cfg e s) = recordingPath (stopRecording e s)"
  by (simp add: cleanup_unfold writeSessionAndExit_fields generateMetadataStep_flags
        transcribeOrSkip_flags)

lemma skipTranscription_stopRecording:
  "skipTranscription cfg (stopRecording e s) = skipTranscription cfg s"
  by (simp add: skipTranscription_def stopRecording_flags)

lemma cleanup_trace:
  "\<exists>es. trace (cleanup cfg e s) = trace s @ EvStopRecording # es
        \<and> (\<forall>ev\<in>set es. cleanupEvent ev)
        \<and> (skipTranscription cfg s \<longrightarrow> (\<forall>p. EvTranscribe p \<notin> set es))"
proof -
  define s1 where "s1 = stopRecording e s"
  define s2 where "s2 = snd (transcribeOrSkip cfg e s1)"
  define tr where "tr = fst (transcribeOrSkip cfg e s1)"
  have t1: "trace s1 = trace s @ [EvStopRecording]"
    by (simp add: s1_def stopRecording_trace)
  from transcribeOrSkip_trace[of cfg e s1] obtain es2 where
    es2: "trace s2 = trace s1 @ es2" "set es2 \<subseteq> range EvUnlink \<union> range EvTranscribe"
      "skipTranscription cfg s \<longrightarrow> (\<forall>p. EvTranscribe p \<notin> set es2)"
    unfolding s2_def s1_def skipTranscription_stopRecording by blast
  from generateMetadataStep_trace[of s2] obtain es3 where
    es3: "trace (generateMetadataStep s2) = trace s2 @ es3" "set es3 \<subseteq> range EvGenerateMetadata"
    by blast
  from writeSessionAndExit_trace[of e tr "generateMetadataStep s2"] obtain w where
    w: "trace (writeSessionAndExit e tr (generateMetadataStep s2))
        = trace (generateMetadataStep s2) @ w"
       "set w \<subseteq> range EvWriteSession \<union> range EvExit"
    by blast
  have c: "cleanup cfg e s = writeSessionAndExit e tr (generateMetadataStep s2)"
    by (simp add: cleanup_unfold s1_def s2_def tr_def)
  have tr: "trace (cleanup cfg e s) = trace s @ EvStopRecording # (es2 @ es3 @ w)"
    by (simp add: c w(1) es3(1) es2(1) t1)
  have a: "\<forall>ev\<in>set (es2 @ es3 @ w). cleanupEvent ev"
    using es2(2) es3(2) w(2) by (auto simp: cleanupEvent_def)
  have b: "skipTranscription cfg s \<longrightarrow> (\<forall>p. EvTranscribe p \<notin> set (es2 @ es3 @ w))"
    using es2(3) es3(2) w(2) by auto
  from tr a b show ?thesis by blast
qed

lemma deleteRecording_on_disk:
  assumes "recordingPath s = Some p" and "fs s p \<noteq> None"
  shows "trace (deleteRecording e s) = trace s @ [EvUnlink p]"
  using assms by (auto simp: deleteRecording_def logCall_def)

lemma deleteRecording_fs:
  assumes "recordingPath s = Some p" and "unlinkSucceeds e"
  shows "fs (deleteRecording e s) p = None"
  using assms by (auto simp: deleteRecording_def logCall_def)

lemma deleteRecording_no_path:
  assumes "recordingPath s = None"
  shows "deleteRecording e s = s"
  using assms by (simp add: deleteRecording_def)

lemma writeSessionAndExit_noRecordedAudio:
  assumes "noRecordedAudio s p"
  shows "noRecordedAudio (writeSessionAndExit e transcript s) p"
  using assms
  by (simp add: writeSessionAndExit_def noRecordedAudio_def logCall_def split: result.splits)

lemma recordingGone_noRecordedAudio:
  assumes "recordingGone s p"
  shows "noRecordedAudio s p"
proof (cases "fs s p")
  case None
  then show ?thesis by (simp add: noRecordedAudio_def)
next
  case (Some f)
  with assms have "\<not> nonEmptyFile f" by (simp add: recordingGone_def)
  with Some show ?thesis
    by (cases f) (simp_all add: noRecordedAudio_def nonEmptyFile_def)
qed

lemma checkRecordingFile_dropped:
  assumes "recordingPath s = Some p" and "recordingPath (checkRecordingFile s) = None"
  shows "case fs s p of None \<Rightarrow> True | Some f \<Rightarrow> \<not> nonEmptyFile f"
proof (cases "suffix ''.webm'' p")
  case False
  with assms show ?thesis by (simp add: checkRecordingFile_def)
next
  case True
  show ?thesis
  proof (cases "fs s p")
    case None
    then show ?thesis by simp
  next
    case (Some f)
    with True assms show ?thesis
      by (cases "nonEmptyFile f") (simp_all add: checkRecordingFile_def)
  qed
qed

lemma checkRecordingFile_path:
  assumes "recordingPath s = Some p"
  shows "recordingPath (checkRecordingFile s) = Some p
         \<or> recordingPath (checkRecordingFile s) = None"
  using checkRecordingFile_path_cases[OF assms] by auto

text \<open>
  On the emptied-out path \<open>cleanup\<close> is \<open>stopRecording\<close>, then the deletion, then the
  metadata step (which finds no transcript to work on or logs its call), then the session
  record; in the state the session record is written from, the recording is gone.
\<close>

lemma cleanup_skip_unfold:
  assumes "skipTranscription cfg s"
  shows "cleanup cfg e s
         = writeSessionAndExit e None
             (generateMetadataStep (deleteRecording e (stopRecording e s)))"
proof -
  have "skipTranscription cfg (stopRecording e s)"
    using assms by (simp add: skipTranscription_stopRecording)
  then have "transcribeOrSkip cfg e (stopRecording e s)
             = (None, deleteRecording e (stopRecording e s))"
    by (simp add: transcribeOrSkip_def)
  then show ?thesis by (simp add: cleanup_unfold)
qed

lemma cleanup_recordingGone:
  assumes skip: "skipTranscription cfg s" and ok: "unlinkSucceeds e"
    and path: "recordingPath s = Some p"
  shows "recordingGone (generateMetadataStep (deleteRecording e (stopRecording e s))) p"
proof -
  define s0 where "s0 = finalFlush e ((logCall EvStopRecording s)\<lparr>audioSaveInterval := False\<rparr>)"
  define s1 where "s1 = stopRecording e s"
  have s1: "s1 = checkRecordingFile s0" by (simp add: s1_def s0_def stopRecording_def)
  have p0: "recordingPath s0 = Some p"
    using path by (simp add: s0_def finalFlush_fields logCall_def)
  show ?thesis
  proof (cases "recordingPath s1 = Some p")
    case True
    then have "fs (deleteRecording e s1) p = None" using ok by (rule deleteRecording_fs)
    then show ?thesis
      by (simp add: recordingGone_def generateMetadataStep_flags s1_def)
  next
    case False
    with checkRecordingFile_path[OF p0] have n: "recordingPath s1 = None" by (simp add: s1)
    then have "case fs s0 p of None \<Rightarrow> True | Some f \<Rightarrow> \<not> nonEmptyFile f"
      using checkRecordingFile_dropped[OF p0] by (simp add: s1)
    then have "recordingGone s1 p"
      using n by (simp add: recordingGone_def s1 checkRecordingFile_fields split: option.splits)
    then have "recordingGone (generateMetadataStep s1) p"
      by (simp add: recordingGone_def generateMetadataStep_flags split: option.splits)
    with n show ?thesis
      by (simp add: deleteRecording_no_path s1_def[symmetric])
  qed
qed

lemma cleanup_noRecordedAudio:
  assumes skip: "skipTranscription cfg s" and ok: "unlinkSucceeds e"
    and path: "recordingPath s = Some p"
  shows "noRecordedAudio (cleanup cfg e s) p"
proof -
  have "noRecordedAudio (generateMetadataStep (deleteRecording e (stopRecording e s))) p"
    using cleanup_recordingGone[OF skip ok path] by (rule recordingGone_noRecordedAudio)
  then show ?thesis
    unfolding cleanup_skip_unfold[OF skip] by (rule writeSessionAndExit_noRecordedAudio)
qed

lemma cleanup_skip_trace:
  assumes skip: "skipTranscription cfg s"
  shows "\<exists>es. trace (cleanup cfg e s) = trace s @ es
          \<and> EvStopRecording \<in> set es
          \<and> (\<forall>p. EvTranscribe p \<notin> set es)
          \<and> (\<forall>p. recordingPath (cleanup cfg e s) = Some p \<and> suffix ''.webm'' p
                 \<longrightarrow> EvUnlink p \<in> set es)"
proof -
  define s1 where "s1 = stopRecording e s"
  from cleanup_trace[of cfg e s] skip obtain es where
    es: "trace (cleanup cfg e s) = trace s @ EvStopRecording # es"
        "\<forall>p. EvTranscribe p \<notin> set es" by blast
  have c: "cleanup cfg e s
           = writeSessionAndExit e None (generateMetadataStep (deleteRecording e s1))"
    unfolding s1_def using skip by (rule cleanup_skip_unfold)
  have u: "EvUnlink p \<in> set es"
    if p: "recordingPath (cleanup cfg e s) = Some p" "suffix ''.webm'' p" for p
  proof -
    from p have p1: "recordingPath s1 = Some p"
      by (simp add: cleanup_recordingPath s1_def)
    have "fs s1 p \<noteq> None"
      using p1 p(2) stopRecording_kept_on_disk[of e s p] by (simp add: s1_def)
    with p1 have d: "trace (deleteRecording e s1) = trace s1 @ [EvUnlink p]"
      by (rule deleteRecording_on_disk)
    from generateMetadataStep_trace[of "deleteRecording e s1"] obtain es3 where
      g: "trace (generateMetadataStep (deleteRecording e s1)) = trace (deleteRecording e s1) @ es3"
      by blast
    from writeSessionAndExit_trace[of e None "generateMetadataStep (deleteRecording e s1)"]
    obtain w where
      w: "trace (writeSessionAndExit e None (generateMetadataStep (deleteRecording e s1)))
          = trace (generateMetadataStep (deleteRecording e s1)) @ w"
      by blast
    have t1: "trace s1 = trace s @ [EvStopRecording]"
      by (simp add: s1_def stopRecording_trace)
    have "trace (cleanup cfg e s) = trace s @ EvStopRecording # EvUnlink p # (es3 @ w)"
      unfolding c by (simp add: w g d t1)
    with es(1) have "es = EvUnlink p # (es3 @ w)" by simp
    then show ?thesis by simp
  qed
  have "trace (cleanup cfg e s) = trace s @ (EvStopRecording # es)
        \<and> EvStopRecording \<in> set (EvStopRecording # es)
        \<and> (\<forall>p. EvTranscribe p \<notin> set (EvStopRecording # es))
        \<and> (\<forall>p. recordingPath (cleanup cfg e s) = Some p \<and> suffix ''.webm'' p
               \<longrightarrow> EvUnlink p \<in> set (EvStopRecording # es))"
    using es u by simp
  then show ?thesis by (rule exI[where x = "EvStopRecording # es"])
qed

section \<open>Monitoring loop: one pass and the empty timer\<close>

lemma logCall_fields:
  "trace (logCall ev s) = trace s @ [ev]"
  "status (logCall ev s) = status s"
  "recordingPath (logCall ev s) = recordingPath s"
  "isInMeeting (logCall ev s) = isInMeeting s"
  "hasJoinedMeeting (logCall ev s) = hasJoinedMeeting s"
  "leftDueToEmptyTimeout (logCall ev s) = leftDueToEmptyTimeout s"
  "emptyMeetingSince (logCall ev s) = emptyMeetingSince s"
  "fs (logCall ev s) = fs s"
  by (simp_all add: logCall_def)

lemma flushAudioChunks_fields:
  "trace (flushAudioChunks r s) = trace s"
  "status (flushAudioChunks r s) = status s"
  "recordingPath (flushAudioChunks r s) = recordingPath s"
  "isInMeeting (flushAudioChunks r s) = isInMeeting s"
  "hasJoinedMeeting (flushAudioChunks r s) = hasJoinedMeeting s"
  "leftDueToEmptyTimeout (flushAudioChunks r s) = leftDueToEmptyTimeout s"
  "emptyMeetingSince (flushAudioChunks r s) = emptyMeetingSince s"
  by (simp_all add: flushAudioChunks_def appendChunks_fields split: result.splits)

lemma timerStarted_logCall: "timerStarted (logCall ev s) = timerStarted s"
  by (simp add: timerStarted_def logCall_fields)

lemma timerStarted_flush: "timerStarted (flushAudioChunks r s) = timerStarted s"
  by (simp add: timerStarted_def flushAudioChunks_fields)

lemma checkEmptyTimeout_throws:
  assumes "tk_count t = Throws"
  shows "checkEmptyTimeout cfg e t s = logCall EvGetParticipantCount s"
  using assms by (simp add: checkEmptyTimeout_def)

lemma checkEmptyTimeout_unknown:
  assumes "tk_count t = Returns n" and "n < 0"
  shows "checkEmptyTimeout cfg e t s = logCall EvGetParticipantCount s"
  using assms by (simp add: checkEmptyTimeout_def)

lemma checkEmptyTimeout_positive:
  assumes "tk_count t = Returns n" and "0 < n"
  shows "checkEmptyTimeout cfg e t s =
           (if timerStarted s then (logCall EvGetParticipantCount s)\<lparr>emptyMeetingSince := None\<rparr>
            else logCall EvGetParticipantCount s)"
  using assms by (simp add: checkEmptyTimeout_def timerStarted_logCall)

lemma checkEmptyTimeout_zero_start:
  assumes "tk_count t = Returns 0" and "\<not> timerStarted s"
  shows "checkEmptyTimeout cfg e t s
         = (logCall EvGetParticipantCount s)\<lparr>emptyMeetingSince := Some (tk_now t)\<rparr>"
  using assms by (simp add: checkEmptyTimeout_def timerStarted_logCall)

lemma checkEmptyTimeout_zero_wait:
  assumes "tk_count t = Returns 0" and "emptyMeetingSince s = Some t0" and "t0 \<noteq> 0"
    and "tk_now t - t0 < emptyTimeoutMs cfg"
  shows "checkEmptyTimeout cfg e t s = logCall EvGetParticipantCount s"
  using assms by (simp add: checkEmptyTimeout_def timerStarted_def logCall_fields)

lemma checkEmptyTimeout_zero_leave:
  assumes "tk_count t = Returns 0" and "emptyMeetingSince s = Some t0" and "t0 \<noteq> 0"
    and "emptyTimeoutMs cfg \<le> tk_now t - t0" and "writeSessionFile e \<noteq> Throws"
  shows "checkEmptyTimeout cfg e t s
         = cleanup cfg e ((logCall EvGetParticipantCount s)
                            \<lparr>isInMeeting := False, leftDueToEmptyTimeout := True\<rparr>)"
  using assms
  by (simp add: checkEmptyTimeout_def timerStarted_def logCall_fields Let_def cleanup_status)

lemma checkEmptyTimeout_zero_leave_write_fails:
  assumes "tk_count t = Returns 0" and "emptyMeetingSince s = Some t0" and "t0 \<noteq> 0"
    and "emptyTimeoutMs cfg \<le> tk_now t - t0" and "writeSessionFile e = Throws"
  shows "checkEmptyTimeout cfg e t s
         = (cleanup cfg e ((logCall EvGetParticipantCount s)
                             \<lparr>isInMeeting := False, leftDueToEmptyTimeout := True\<rparr>))
             \<lparr>status := Running\<rparr>"
  using assms
  by (simp add: checkEmptyTimeout_def timerStarted_def logCall_fields Let_def cleanup_status)

lemma monitorTick_not_ended:
  assumes "tk_ended t (hasJoinedMeeting s) = Returns False"
  shows "monitorTick cfg e t s
         = checkEmptyTimeout cfg e t
             (logCall (EvCheckMeetingEnded (hasJoinedMeeting s)) (flushAudioChunks (tk_chunks t) s))"
  using assms by (simp add: monitorTick_def Let_def flushAudioChunks_fields)

lemma monitorTick_throws:
  assumes "tk_ended t (hasJoinedMeeting s) = Throws"
  shows "monitorTick cfg e t s
         = (logCall (EvCheckMeetingEnded (hasJoinedMeeting s)) (flushAudioChunks (tk_chunks t) s))
             \<lparr>status := Thrown\<rparr>"
  using assms by (simp add: monitorTick_def Let_def flushAudioChunks_fields)

lemma monitorMeeting_not_in_meeting:
  assumes "\<not> isInMeeting s"
  shows "monitorMeeting cfg e ts s = s"
  using assms by (cases ts) simp_all

text \<open>Passes that leave the loop running are followed by the passes after them.\<close>

lemma monitorMeeting_append_running:
  assumes "status (monitorMeeting cfg e xs s) = Running"
  shows "monitorMeeting cfg e (xs @ ys) s = monitorMeeting cfg e ys (monitorMeeting cfg e xs s)"
  using assms
proof (induction xs arbitrary: s)
  case Nil
  then show ?case by simp
next
  case (Cons x xs)
  show ?case
  proof (cases "isInMeeting s")
    case False
    then show ?thesis by (simp add: monitorMeeting_not_in_meeting)
  next
    case True
    show ?thesis
    proof (cases "status (monitorTick cfg e x s) = Running")
      case r: True
      with True Cons.prems
      have "status (monitorMeeting cfg e xs (monitorTick cfg e x s)) = Running"
        by (simp add: Let_def)
      from Cons.IH[OF this] True r show ?thesis by (simp add: Let_def)
    next
      case False
      with True Cons.prems show ?thesis by (simp add: Let_def)
    qed
  qed
qed

text \<open>
  While the meeting is empty and the timeout has not been reached, the loop keeps
  monitoring: each pass asks the adapter twice and changes nothing else.
\<close>

lemma monitor_waits_below_timeout:
  assumes "emptyMeetingSince s = Some t0" and "t0 \<noteq> 0" and "isInMeeting s"
    and "status s = Running"
    and "\<forall>t\<in>set ts. tk_ended t (hasJoinedMeeting s) = Returns False \<and> tk_count t = Returns 0"
    and "\<forall>t\<in>set ts. tk_now t - t0 < emptyTimeoutMs cfg"
  shows "status (monitorMeeting cfg e ts s) = Running
         \<and> isInMeeting (monitorMeeting cfg e ts s)
         \<and> leftDueToEmptyTimeout (monitorMeeting cfg e ts s) = leftDueToEmptyTimeout s
         \<and> emptyMeetingSince (monitorMeeting cfg e ts s) = Some t0
         \<and> recordingPath (monitorMeeting cfg e ts s) = recordingPath s
         \<and> hasJoinedMeeting (monitorMeeting cfg e ts s) = hasJoinedMeeting s
         \<and> (\<exists>ws. trace (monitorMeeting cfg e ts s) = trace s @ ws
                  \<and> set ws \<subseteq> insert EvGetParticipantCount (range EvCheckMeetingEnded))"
  using assms
proof (induction ts arbitrary: s)
  case Nil
  then show ?case by simp
next
  case (Cons t ts)
  let ?j = "hasJoinedMeeting s"
  define s1 where "s1 = logCall (EvCheckMeetingEnded ?j) (flushAudioChunks (tk_chunks t) s)"
  define s2 where "s2 = logCall EvGetParticipantCount s1"
  have t_ok: "tk_ended t ?j = Returns False" "tk_count t = Returns 0"
    "tk_now t - t0 < emptyTimeoutMs cfg"
    using Cons.prems(5,6) by simp_all
  have s1f: "emptyMeetingSince s1 = Some t0"
    using Cons.prems(1) by (simp add: s1_def logCall_fields flushAudioChunks_fields)
  have tick: "monitorTick cfg e t s = s2"
    using t_ok(1) checkEmptyTimeout_zero_wait[OF t_ok(2) s1f Cons.prems(2) t_ok(3), of e]
    by (simp add: monitorTick_not_ended s1_def s2_def)
  have s2f: "emptyMeetingSince s2 = Some t0" "isInMeeting s2" "status s2 = Running"
    "hasJoinedMeeting s2 = ?j" "leftDueToEmptyTimeout s2 = leftDueToEmptyTimeout s"
    "recordingPath s2 = recordingPath s"
    "trace s2 = trace s @ [EvCheckMeetingEnded ?j, EvGetParticipantCount]"
    using Cons.prems(1,3,4)
    by (simp_all add: s2_def s1_def logCall_fields flushAudioChunks_fields)
  have step: "monitorMeeting cfg e (t # ts) s = monitorMeeting cfg e ts s2"
    using Cons.prems(3) by (simp add: tick s2f)
  have all: "\<forall>t\<in>set ts. tk_ended t (hasJoinedMeeting s2) = Returns False
                            \<and> tk_count t = Returns 0"
    using Cons.prems(5) by (simp add: s2f)
  have below: "\<forall>t\<in>set ts. tk_now t - t0 < emptyTimeoutMs cfg"
    using Cons.prems(6) by simp
  note ih = Cons.IH[OF s2f(1) Cons.prems(2) s2f(2,3) all below]
  from ih obtain ws where
    ws: "trace (monitorMeeting cfg e ts s2) = trace s2 @ ws"
        "set ws \<subseteq> insert EvGetParticipantCount (range EvCheckMeetingEnded)"
    by blast
  have "trace (monitorMeeting cfg e ts s2)
          = trace s @ ([EvCheckMeetingEnded ?j, EvGetParticipantCount] @ ws)
        \<and> set ([EvCheckMeetingEnded ?j, EvGetParticipantCount] @ ws)
            \<subseteq> insert EvGetParticipantCount (range EvCheckMeetingEnded)"
    using ws by (simp add: s2f)
  then have tr: "\<exists>ws. trace (monitorMeeting cfg e ts s2) = trace s @ ws
                  \<and> set ws \<subseteq> insert EvGetParticipantCount (range EvCheckMeetingEnded)"
    by (rule exI[where x = "[EvCheckMeetingEnded ?j, EvGetParticipantCount] @ ws"])
  from ih tr show ?case unfolding step by (simp add: s2f)
qed

section \<open>The join flow\<close>

lemma runSteps_append:
  "status s = Running \<Longrightarrow>
     runSteps (xs @ ys) s
       = (if status (runSteps xs s) = Running then runSteps ys (runSteps xs s)
          else runSteps xs s)"
proof (induction xs arbitrary: s)
  case Nil
  then show ?case by simp
next
  case (Cons f xs)
  show ?case
  proof (cases "status (f s) = Running")
    case True
    with Cons.IH[of "f s"] show ?thesis by (simp add: Let_def)
  next
    case False
    then show ?thesis by (simp add: Let_def)
  qed
qed

lemma runSteps_preserve:
  assumes "P s" and "\<And>s. P s \<Longrightarrow> status s = Running"
    and "\<And>s. Q s \<Longrightarrow> status s \<noteq> Running"
    and "\<forall>f\<in>set steps. \<forall>s. P s \<longrightarrow> P (f s) \<or> Q (f s)"
  shows "P (runSteps steps s) \<or> Q (runSteps steps s)"
  using assms(1,4)
proof (induction steps arbitrary: s)
  case Nil
  then show ?case by simp
next
  case (Cons f steps)
  from Cons.prems have d: "P (f s) \<or> Q (f s)" by simp
  show ?case
  proof (cases "P (f s)")
    case True
    then have "status (f s) = Running" by (rule assms(2))
    moreover from Cons.prems(2) have "\<forall>f\<in>set steps. \<forall>s. P s \<longrightarrow> P (f s) \<or> Q (f s)" by simp
    ultimately show ?thesis using Cons.IH[OF True] by (simp add: Let_def)
  next
    case False
    with d have q: "Q (f s)" by simp
    then have "status (f s) \<noteq> Running" by (rule assms(3))
    with q show ?thesis by (simp add: Let_def)
  qed
qed

lemma runSteps_throwing_step:
  assumes "P s" and "\<And>s. P s \<Longrightarrow> status s = Running"
    and "\<And>s. Q s \<Longrightarrow> status s \<noteq> Running"
    and "\<forall>f\<in>set steps. \<forall>s. P s \<longrightarrow> P (f s) \<or> Q (f s)"
    and "\<exists>f\<in>set steps. \<forall>s. P s \<longrightarrow> Q (f s)"
  shows "Q (runSteps steps s)"
  using assms(1,4,5)
proof (induction steps arbitrary: s)
  case Nil
  then show ?case by simp
next
  case (Cons f steps)
  from Cons.prems have d: "P (f s) \<or> Q (f s)" by simp
  show ?case
  proof (cases "Q (f s)")
    case True
    then have "status (f s) \<noteq> Running" by (rule assms(3))
    with True show ?thesis by (simp add: Let_def)
  next
    case False
    with d have p: "P (f s)" by simp
    then have r: "status (f s) = Running" by (rule assms(2))
    from False Cons.prems(1) have "\<not> (\<forall>s. P s \<longrightarrow> Q (f s))" by blast
    with Cons.prems(3) have ex: "\<exists>f\<in>set steps. \<forall>s. P s \<longrightarrow> Q (f s)" by auto
    from Cons.prems(2) have all: "\<forall>f\<in>set steps. \<forall>s. P s \<longrightarrow> P (f s) \<or> Q (f s)" by simp
    from Cons.IH[OF p all ex] r show ?thesis by (simp add: Let_def)
  qed
qed


lemma runSteps_single: "runSteps [f] s = f s"
  by (simp add: Let_def)

lemma admissionStep_throws:
  assumes "status s = Running" and "\<not> isInMeeting s"
    and "EvRouteAudio \<notin> set (trace s)" and "\<forall>j. EvCheckMeetingEnded j \<notin> set (trace s)"
    and "(hasWaitForAdmission a \<and> waitForAdmission e = Throws)
         \<or> ((\<not> hasWaitForAdmission a \<or> waitForAdmission e = Returns NotWaiting)
             \<and> verifyInMeeting e = Throws)"
  shows "status (admissionStep cfg e a s) = Thrown
         \<and> \<not> isInMeeting (admissionStep cfg e a s)
         \<and> EvRouteAudio \<notin> set (trace (admissionStep cfg e a s))
         \<and> (\<forall>j. EvCheckMeetingEnded j \<notin> set (trace (admissionStep cfg e a s)))"
  using assms
  by (auto simp: admissionStep_def verifyStep_def logCall_def)

lemma call_outside:
  assumes "ev \<noteq> EvRouteAudio" and "\<forall>j. ev \<noteq> EvCheckMeetingEnded j"
  shows "\<forall>s. outsideMeeting Running s
             \<longrightarrow> outsideMeeting Running (call ev r s) \<or> outsideMeeting Thrown (call ev r s)"
  using assms by (cases r) (auto simp: outsideMeeting_def call_def logCall_def)

lemma call_throws_outside:
  assumes "ev \<noteq> EvRouteAudio" and "\<forall>j. ev \<noteq> EvCheckMeetingEnded j"
  shows "\<forall>s. outsideMeeting Running s \<longrightarrow> outsideMeeting Thrown (call ev Throws s)"
  using assms by (auto simp: outsideMeeting_def call_def logCall_def)

lemma joinMeeting_throws:
  assumes rp: "resolvePlatform url = Some a" and th: "joinCallThrows cfg e a"
    and s0: "outsideMeeting Running s"
  shows "outsideMeeting Thrown (joinMeeting cfg e url s)"
proof -
  let ?P = "outsideMeeting Running"
  let ?Q = "outsideMeeting Thrown"
  define pre where "pre =
            [ (\<lambda>s. s\<lparr>adapter := Some a, platformName := Some (platform_name a)\<rparr>),
              call (EvGoto (normalizeUrl a url)) (goto e),
              call EvDismissPopups (dismissPopups e 1),
              (\<lambda>s. if googleAccountEnabled cfg then s else call EvEnterName (enterName e) s),
              call EvMuteMedia (muteMedia e),
              call EvDismissPopups (dismissPopups e 2),
              call EvClickJoin (clickJoin e),
              call EvDismissPopups (dismissPopups e 3) ]"
  have PR: "\<And>s. ?P s \<Longrightarrow> status s = Running" by (simp add: outsideMeeting_def)
  have QR: "\<And>s. ?Q s \<Longrightarrow> status s \<noteq> Running" by (simp add: outsideMeeting_def)
  have setP: "\<forall>x. ?P x \<longrightarrow> ?P (x\<lparr>adapter := Some a, platformName := Some (platform_name a)\<rparr>)"
    by (simp add: outsideMeeting_def)
  have pres: "\<forall>f\<in>set pre. \<forall>s. ?P s \<longrightarrow> ?P (f s) \<or> ?Q (f s)"
    unfolding pre_def using setP by (simp add: call_outside)
  have jm: "joinMeeting cfg e url s = runSteps (pre @ [admissionStep cfg e a]) s"
    by (simp add: joinMeeting_def rp pre_def)
  have app: "runSteps (pre @ [admissionStep cfg e a]) s
       = (if status (runSteps pre s) = Running
          then admissionStep cfg e a (runSteps pre s) else runSteps pre s)"
    using runSteps_append[OF PR[OF s0], of pre "[admissionStep cfg e a]"]
    by (simp only: runSteps_single)
  have PQ: "?P (runSteps pre s) \<or> ?Q (runSteps pre s)"
    using s0 PR QR pres by (rule runSteps_preserve)
  show ?thesis
  proof (cases "goto e = Throws \<or> dismissPopups e 1 = Throws
      \<or> (\<not> googleAccountEnabled cfg \<and> enterName e = Throws)
      \<or> muteMedia e = Throws \<or> dismissPopups e 2 = Throws \<or> clickJoin e = Throws
      \<or> dismissPopups e 3 = Throws")
    case True
    have "\<exists>f\<in>set pre. \<forall>s. ?P s \<longrightarrow> ?Q (f s)"
    proof -
      have m: "f \<in> set pre \<Longrightarrow> \<forall>s. ?P s \<longrightarrow> ?Q (f s)
                 \<Longrightarrow> \<exists>f\<in>set pre. \<forall>s. ?P s \<longrightarrow> ?Q (f s)" for f
        by blast
      from True consider
          (1) "goto e = Throws" | (2) "dismissPopups e 1 = Throws"
        | (3) "\<not> googleAccountEnabled cfg" "enterName e = Throws"
        | (4) "muteMedia e = Throws" | (5) "dismissPopups e 2 = Throws"
        | (6) "clickJoin e = Throws" | (7) "dismissPopups e 3 = Throws"
        by argo
      then show ?thesis
      proof cases
        case 1
        show ?thesis
          by (rule m[of "call (EvGoto (normalizeUrl a url)) (goto e)"])
             (simp_all add: pre_def 1 call_throws_outside)
      next
        case 2
        then have t2: "dismissPopups e (Suc 0) = Throws" by simp
        show ?thesis
          by (rule m[of "call EvDismissPopups (dismissPopups e 1)"])
             (simp_all add: pre_def t2 call_throws_outside)
      next
        case 3
        show ?thesis
          by (rule m[of "\<lambda>s. if googleAccountEnabled cfg then s
                               else call EvEnterName (enterName e) s"])
             (simp_all add: pre_def 3 call_throws_outside)
      next
        case 4
        show ?thesis
          by (rule m[of "call EvMuteMedia (muteMedia e)"])
             (simp_all add: pre_def 4 call_throws_outside)
      next
        case 5
        show ?thesis
          by (rule m[of "call EvDismissPopups (dismissPopups e 2)"])
             (simp_all add: pre_def 5 call_throws_outside)
      next
        case 6
        show ?thesis
          by (rule m[of "call EvClickJoin (clickJoin e)"])
             (simp_all add: pre_def 6 call_throws_outside)
      next
        case 7
        show ?thesis
          by (rule m[of "call EvDismissPopups (dismissPopups e 3)"])
             (simp_all add: pre_def 7 call_throws_outside)
      qed
    qed
    with s0 PR QR pres have q: "?Q (runSteps pre s)" by (rule runSteps_throwing_step)
    then have "status (runSteps pre s) \<noteq> Running" by (rule QR)
    with q show ?thesis by (simp add: jm app)
  next
    case False
    with th have adm: "(hasWaitForAdmission a \<and> waitForAdmission e = Throws)
         \<or> ((\<not> hasWaitForAdmission a \<or> waitForAdmission e = Returns NotWaiting)
             \<and> verifyInMeeting e = Throws)"
      unfolding joinCallThrows_def by blast
    show ?thesis
    proof (cases "?Q (runSteps pre s)")
      case True
      then have "status (runSteps pre s) \<noteq> Running" by (rule QR)
      with True show ?thesis by (simp add: jm app)
    next
      case False
      with PQ have p: "?P (runSteps pre s)" by simp
      then have p': "status (runSteps pre s) = Running" "\<not> isInMeeting (runSteps pre s)"
        "EvRouteAudio \<notin> set (trace (runSteps pre s))"
        "\<forall>j. EvCheckMeetingEnded j \<notin> set (trace (runSteps pre s))"
        by (simp_all add: outsideMeeting_def)
      from admissionStep_throws[OF p' adm, of cfg] p'(1)
      show ?thesis by (simp add: jm app outsideMeeting_def)
    qed
  qed
qed

lemma runBody_join_throws:
  assumes "connect e \<noteq> Throws" and "setupAudioHooks e \<noteq> Throws"
    and "resolvePlatform url = Some a" and "joinCallThrows cfg e a"
  shows "outsideMeeting Thrown (runBody cfg e url name ticks (newMeetingBot files))"
proof -
  define s3 where "s3 = startRecording e name (setupAudio e (init e (newMeetingBot files)))"
  have i: "status (init e (newMeetingBot files)) = Running"
    using assms(1) by (simp add: init_def logCall_def newMeetingBot_def split: result.splits)
  have a: "status (setupAudio e (init e (newMeetingBot files))) = Running"
    using assms(2) i by (simp add: setupAudio_def call_def logCall_def split: result.splits)
  have s3f: "outsideMeeting Running s3"
    using assms(1,2)
    by (auto simp: outsideMeeting_def s3_def startRecording_def setupAudio_def init_def
                   call_def logCall_def newMeetingBot_def split: result.splits)
  then have r: "status s3 = Running" by (simp add: outsideMeeting_def)
  have j: "outsideMeeting Thrown (joinMeeting cfg e url s3)"
    using assms(3,4) s3f by (rule joinMeeting_throws)
  then have "status (joinMeeting cfg e url s3) = Thrown" by (simp add: outsideMeeting_def)
  then have "runBody cfg e url name ticks (newMeetingBot files) = joinMeeting cfg e url s3"
    using i a r by (simp add: runBody_def Let_def s3_def)
  with j show ?thesis by simp
qed

lemma runBody_joinedState:
  "runBody cfg e url name ticks (newMeetingBot files)
     = (if status (joinedState cfg e url name (newMeetingBot files)) = Running
        then monitorMeeting cfg e ticks (joinedState cfg e url name (newMeetingBot files))
        else joinedState cfg e url name (newMeetingBot files))"
proof -
  have r: "status (newMeetingBot files) = Running" by (simp add: newMeetingBot_def)
  from runSteps_append[OF r, of "[init e, setupAudio e, startRecording e name,
                                  joinMeeting cfg e url]" "[monitorMeeting cfg e ticks]"]
  show ?thesis
    unfolding runBody_def joinedState_def by (simp only: runSteps_single append.simps)
qed

section \<open>Empty meeting\<close>

text \<open>
  The first pass with a count of 0 starts the timer.
\<close>

lemma monitor_first_empty_pass:
  assumes "isInMeeting s" and "status s = Running" and "\<not> timerStarted s"
    and "tk_ended t0 (hasJoinedMeeting s) = Returns False" and "tk_count t0 = Returns 0"
  shows "monitorMeeting cfg e (t0 # ts) s
         = monitorMeeting cfg e ts
             ((logCall EvGetParticipantCount
                 (logCall (EvCheckMeetingEnded (hasJoinedMeeting s))
                    (flushAudioChunks (tk_chunks t0) s)))
                \<lparr>emptyMeetingSince := Some (tk_now t0)\<rparr>)"
proof -
  let ?j = "hasJoinedMeeting s"
  define s1 where "s1 = logCall (EvCheckMeetingEnded ?j) (flushAudioChunks (tk_chunks t0) s)"
  define s2 where "s2 = (logCall EvGetParticipantCount s1)\<lparr>emptyMeetingSince := Some (tk_now t0)\<rparr>"
  have ns: "\<not> timerStarted s1"
    using assms(3) by (simp add: s1_def timerStarted_logCall timerStarted_flush)
  have tick: "monitorTick cfg e t0 s = s2"
    using assms(4,5) ns
    by (simp add: monitorTick_not_ended s1_def[symmetric] s2_def checkEmptyTimeout_zero_start)
  have "status s2 = Running"
    using assms(2) by (simp add: s2_def s1_def logCall_fields flushAudioChunks_fields)
  then have "monitorMeeting cfg e (t0 # ts) s = monitorMeeting cfg e ts s2"
    using assms(1) by (simp add: tick)
  then show ?thesis by (simp add: s2_def s1_def)
qed

text \<open>
  C5, as the code has it. The timeout the loop compares with is
  \<open>(config.meeting?.emptyTimeoutMinutes || 15)\<close> minutes: the configured number of
  minutes when that is set and not 0, and 15 minutes otherwise. The polls are the passes
  \<open>t0\<close>, \<open>pre\<close> and \<open>t\<close> of the loop, in this order; on each of them \<open>checkMeetingEnded\<close>
  answers "not ended" and \<open>participantCount()\<close> returns 0. The timer starts at \<open>t0\<close>, after
  the epoch, and the passes \<open>pre\<close> lie less than the timeout after \<open>t0\<close>.
  \<^item> After \<open>t0\<close> and \<open>pre\<close> the loop is still monitoring, and no call of \<open>cleanup\<close> has
    been made.
  \<^item> When \<open>t\<close> lies at least the timeout after \<open>t0\<close>, the pass \<open>t\<close> sets the emptied-out
    reason (\<open>leftDueToEmptyTimeout\<close>) and runs \<open>cleanup\<close> on the state \<open>sL\<close>; the passes
    \<open>post\<close> after it never run. Unless \<open>skipTranscriptionOnEmptyLeave\<close> is \<open>false\<close> (it is
    \<open>true\<close> by default) nothing is transcribed; \<open>unlinkSync\<close> taken to succeed, in the state
    \<open>mid\<close> from which the session record is written the recording that \<open>stopRecording\<close>
    kept is no longer on disk; and, the write succeeding, the process exits with
    status 0.
\<close>

theorem empty_timeout_leaves_and_discards_recording:
  assumes "isInMeeting s" and "status s = Running" and "\<not> timerStarted s"
    and "\<forall>x\<in>set (t0 # pre @ [t]). tk_ended x (hasJoinedMeeting s) = Returns False
                                   \<and> tk_count x = Returns 0"
    and "tk_now t0 \<noteq> 0"
    and "minutes = (case emptyTimeoutMinutes cfg of
                      None \<Rightarrow> 15
                    | Some m \<Rightarrow> if m = 0 then 15 else m)"
    and "\<forall>x\<in>set pre. tk_now x - tk_now t0 < minutes * 60 * 1000"
  shows "(let w = monitorMeeting cfg e (t0 # pre) s in
            status w = Running \<and> isInMeeting w
            \<and> leftDueToEmptyTimeout w = leftDueToEmptyTimeout s
            \<and> recordingPath w = recordingPath s
            \<and> (\<exists>ws. trace w = trace s @ ws \<and> (\<forall>ev\<in>set ws. \<not> cleanupEvent ev)))
         \<and> (minutes * 60 * 1000 \<le> tk_now t - tk_now t0
             \<and> skipTranscriptionOnEmptyLeave cfg \<noteq> Some False
             \<and> unlinkSucceeds e \<and> writeSessionFile e \<noteq> Throws
             \<longrightarrow> (let w = monitorMeeting cfg e (t0 # pre) s;
                      sL = (logCall EvGetParticipantCount
                              (logCall (EvCheckMeetingEnded (hasJoinedMeeting w))
                                 (flushAudioChunks (tk_chunks t) w)))
                             \<lparr>isInMeeting := False, leftDueToEmptyTimeout := True\<rparr>;
                      mid = generateMetadataStep (deleteRecording e (stopRecording e sL));
                      s' = monitorMeeting cfg e (t0 # pre @ t # post) s
                  in s' = cleanup cfg e sL
                     \<and> s' = writeSessionAndExit e None mid
                     \<and> leftDueToEmptyTimeout s' \<and> \<not> isInMeeting s' \<and> status s' = Exited 0
                     \<and> (\<forall>p. recordingPath mid = Some p \<longrightarrow> fs mid p = None)
                     \<and> (\<forall>p. recordingPath s = Some p \<longrightarrow> recordingGone mid p)
                     \<and> (\<exists>es. trace s' = trace s @ es
                               \<and> EvStopRecording \<in> set es
                               \<and> (\<forall>p. EvTranscribe p \<notin> set es)
                               \<and> (\<forall>p. recordingPath s' = Some p \<and> suffix ''.webm'' p
                                      \<longrightarrow> EvUnlink p \<in> set es))))
         \<and> emptyTimeoutMinutes DEFAULTS = Some 15
         \<and> skipTranscriptionOnEmptyLeave DEFAULTS = Some True"
proof -
  let ?j = "hasJoinedMeeting s"
  have T: "emptyTimeoutMs cfg = minutes * 60 * 1000"
    using assms(6) by (simp add: emptyTimeoutMs_def)
  have t_ok: "tk_ended t0 ?j = Returns False" "tk_count t0 = Returns 0"
    using assms(4) by simp_all
  define s2 where "s2 = (logCall EvGetParticipantCount
                           (logCall (EvCheckMeetingEnded ?j) (flushAudioChunks (tk_chunks t0) s)))
                          \<lparr>emptyMeetingSince := Some (tk_now t0)\<rparr>"
  have first: "monitorMeeting cfg e (t0 # ts) s = monitorMeeting cfg e ts s2" for ts
    unfolding s2_def using assms(1,2,3) t_ok by (rule monitor_first_empty_pass)
  have s2f: "emptyMeetingSince s2 = Some (tk_now t0)" "isInMeeting s2" "status s2 = Running"
    "hasJoinedMeeting s2 = ?j" "recordingPath s2 = recordingPath s"
    "leftDueToEmptyTimeout s2 = leftDueToEmptyTimeout s"
    "trace s2 = trace s @ [EvCheckMeetingEnded ?j, EvGetParticipantCount]"
    using assms(1,2) by (simp_all add: s2_def logCall_fields flushAudioChunks_fields)
  define w where "w = monitorMeeting cfg e (t0 # pre) s"
  have w2: "w = monitorMeeting cfg e pre s2" unfolding w_def by (rule first)
  have all: "\<forall>x\<in>set pre. tk_ended x (hasJoinedMeeting s2) = Returns False
                            \<and> tk_count x = Returns 0"
    using assms(4) by (simp add: s2f)
  have below: "\<forall>x\<in>set pre. tk_now x - tk_now t0 < emptyTimeoutMs cfg"
    using assms(7) by (simp add: T)
  note waits = monitor_waits_below_timeout[OF s2f(1) assms(5) s2f(2,3) all below, of e,
                                           folded w2]
  from waits have wf: "status w = Running" "isInMeeting w"
    "leftDueToEmptyTimeout w = leftDueToEmptyTimeout s"
    "emptyMeetingSince w = Some (tk_now t0)" "recordingPath w = recordingPath s"
    "hasJoinedMeeting w = ?j"
    by (simp_all add: s2f)
  from waits obtain ws where
    ws: "trace w = trace s2 @ ws"
        "set ws \<subseteq> insert EvGetParticipantCount (range EvCheckMeetingEnded)"
    by blast
  define ws' where "ws' = [EvCheckMeetingEnded ?j, EvGetParticipantCount] @ ws"
  have trw: "trace w = trace s @ ws'" by (simp add: ws(1) s2f ws'_def)
  have mon: "set ws' \<subseteq> insert EvGetParticipantCount (range EvCheckMeetingEnded)"
    using ws(2) by (auto simp: ws'_def)
  have nocl: "\<forall>ev\<in>set ws'. \<not> cleanupEvent ev"
    using mon by (auto simp: cleanupEvent_def)
  have notr: "\<forall>p. EvTranscribe p \<notin> set ws'"
    using mon by auto
  have "trace w = trace s @ ws' \<and> (\<forall>ev\<in>set ws'. \<not> cleanupEvent ev)"
    using trw nocl by simp
  then have "\<exists>ws. trace w = trace s @ ws \<and> (\<forall>ev\<in>set ws. \<not> cleanupEvent ev)"
    by (rule exI[where x = ws'])
  with wf have part1: "status w = Running \<and> isInMeeting w
            \<and> leftDueToEmptyTimeout w = leftDueToEmptyTimeout s
            \<and> recordingPath w = recordingPath s
            \<and> (\<exists>ws. trace w = trace s @ ws \<and> (\<forall>ev\<in>set ws. \<not> cleanupEvent ev))"
    by simp
  define s1 where "s1 = logCall (EvCheckMeetingEnded (hasJoinedMeeting w))
                          (flushAudioChunks (tk_chunks t) w)"
  define sL where "sL = (logCall EvGetParticipantCount s1)
                          \<lparr>isInMeeting := False, leftDueToEmptyTimeout := True\<rparr>"
  define mid where "mid = generateMetadataStep (deleteRecording e (stopRecording e sL))"
  define s' where "s' = monitorMeeting cfg e (t0 # pre @ t # post) s"
  have part2: "s' = cleanup cfg e sL
                     \<and> s' = writeSessionAndExit e None mid
                     \<and> leftDueToEmptyTimeout s' \<and> \<not> isInMeeting s' \<and> status s' = Exited 0
                     \<and> (\<forall>p. recordingPath mid = Some p \<longrightarrow> fs mid p = None)
                     \<and> (\<forall>p. recordingPath s = Some p \<longrightarrow> recordingGone mid p)
                     \<and> (\<exists>es. trace s' = trace s @ es
                               \<and> EvStopRecording \<in> set es
                               \<and> (\<forall>p. EvTranscribe p \<notin> set es)
                               \<and> (\<forall>p. recordingPath s' = Some p \<and> suffix ''.webm'' p
                                      \<longrightarrow> EvUnlink p \<in> set es))"
    if h: "minutes * 60 * 1000 \<le> tk_now t - tk_now t0
             \<and> skipTranscriptionOnEmptyLeave cfg \<noteq> Some False
             \<and> unlinkSucceeds e \<and> writeSessionFile e \<noteq> Throws"
  proof -
    from h have le: "emptyTimeoutMs cfg \<le> tk_now t - tk_now t0" by (simp add: T)
    from h have pol: "skipTranscriptionOnEmptyLeave cfg \<noteq> Some False"
      and ok: "unlinkSucceeds e" and wr: "writeSessionFile e \<noteq> Throws" by simp_all
    have tt: "tk_ended t (hasJoinedMeeting w) = Returns False" "tk_count t = Returns 0"
      using assms(4) by (simp_all add: wf)
    have s1f: "emptyMeetingSince s1 = Some (tk_now t0)"
      by (simp add: s1_def logCall_fields flushAudioChunks_fields wf)
    have tick: "monitorTick cfg e t w = cleanup cfg e sL"
      unfolding sL_def
      using checkEmptyTimeout_zero_leave[OF tt(2) s1f assms(5) le wr] tt(1)
      by (simp add: monitorTick_not_ended s1_def)
    have "s' = monitorMeeting cfg e (pre @ t # post) s2" unfolding s'_def by (rule first)
    also have "\<dots> = monitorMeeting cfg e (t # post) w"
      unfolding w2 using wf(1)[unfolded w2] by (rule monitorMeeting_append_running)
    also have "\<dots> = cleanup cfg e sL"
      using wf(2) wr by (simp add: tick cleanup_status)
    finally have eq1: "s' = cleanup cfg e sL" .
    have sLf: "leftDueToEmptyTimeout sL" "\<not> isInMeeting sL"
      "recordingPath sL = recordingPath s"
      "trace sL = trace s @ (ws' @ [EvCheckMeetingEnded (hasJoinedMeeting w),
                                   EvGetParticipantCount])"
      by (simp_all add: sL_def s1_def logCall_fields flushAudioChunks_fields wf trw)
    have skip: "skipTranscription cfg sL"
      using sLf(1) pol by (simp add: skipTranscription_def)
    have eq2: "s' = writeSessionAndExit e None mid"
      unfolding eq1 mid_def using skip by (rule cleanup_skip_unfold)
    have fl: "leftDueToEmptyTimeout s'" "\<not> isInMeeting s'" "status s' = Exited 0"
      using sLf(1,2) wr by (simp_all add: eq1 cleanup_flags cleanup_status)
    have del: "fs mid p = None" if p: "recordingPath mid = Some p" for p
    proof -
      from p have "recordingPath (stopRecording e sL) = Some p"
        by (simp add: mid_def generateMetadataStep_flags deleteRecording_flags)
      then have "fs (deleteRecording e (stopRecording e sL)) p = None"
        using ok by (rule deleteRecording_fs)
      then show ?thesis by (simp add: mid_def generateMetadataStep_flags)
    qed
    have gone: "recordingGone mid p" if p: "recordingPath s = Some p" for p
      unfolding mid_def using skip ok p[folded sLf(3)] by (rule cleanup_recordingGone)
    from cleanup_skip_trace[OF skip, of e] obtain es where
      es: "trace (cleanup cfg e sL) = trace sL @ es" "EvStopRecording \<in> set es"
          "\<forall>p. EvTranscribe p \<notin> set es"
          "\<forall>p. recordingPath (cleanup cfg e sL) = Some p \<and> suffix ''.webm'' p
               \<longrightarrow> EvUnlink p \<in> set es"
      by blast
    define es' where "es' = ws' @ [EvCheckMeetingEnded (hasJoinedMeeting w),
                                   EvGetParticipantCount] @ es"
    have "trace s' = trace s @ es' \<and> EvStopRecording \<in> set es'
          \<and> (\<forall>p. EvTranscribe p \<notin> set es')
          \<and> (\<forall>p. recordingPath s' = Some p \<and> suffix ''.webm'' p \<longrightarrow> EvUnlink p \<in> set es')"
      using es notr by (simp add: eq1 sLf(4) es'_def)
    then have tr: "\<exists>es. trace s' = trace s @ es \<and> EvStopRecording \<in> set es
          \<and> (\<forall>p. EvTranscribe p \<notin> set es)
          \<and> (\<forall>p. recordingPath s' = Some p \<and> suffix ''.webm'' p \<longrightarrow> EvUnlink p \<in> set es)"
      by (rule exI[where x = es'])
    from eq1 eq2 fl del gone tr show ?thesis by blast
  qed
  have d: "emptyTimeoutMinutes DEFAULTS = Some 15"
          "skipTranscriptionOnEmptyLeave DEFAULTS = Some True"
    by (simp_all add: DEFAULTS_def)
  from part1 part2 d show ?thesis
    unfolding Let_def w_def s1_def sL_def mid_def s'_def by blast
qed

theorem empty_timeout_leaves_and_discards_recording_witness:
  "(let w = monitorMeeting twoMinuteConfig stubEnv [stubTick 1000 0, stubTick 6000 0] joinedBot in
      status w = Running \<and> isInMeeting w \<and> \<not> leftDueToEmptyTimeout w
      \<and> EvStopRecording \<notin> set (trace w))
   \<and> (let w = monitorMeeting twoMinuteConfig stubEnv [stubTick 1000 0, stubTick 6000 0] joinedBot;
          sL = (logCall EvGetParticipantCount
                  (logCall (EvCheckMeetingEnded (hasJoinedMeeting w))
                     (flushAudioChunks (tk_chunks (stubTick 121000 0)) w)))
                 \<lparr>isInMeeting := False, leftDueToEmptyTimeout := True\<rparr>;
          mid = generateMetadataStep (deleteRecording stubEnv (stopRecording stubEnv sL));
          s' = monitorMeeting twoMinuteConfig stubEnv
                 [stubTick 1000 0, stubTick 6000 0, stubTick 121000 0, stubTick 126000 0]
                 joinedBot
      in s' = writeSessionAndExit stubEnv None mid
         \<and> leftDueToEmptyTimeout s' \<and> \<not> isInMeeting s' \<and> status s' = Exited 0
         \<and> recordingPath mid = Some stubRecordingPath
         \<and> fs mid stubRecordingPath = None
         \<and> (\<forall>p. EvTranscribe p \<notin> set (trace s'))
         \<and> EvUnlink stubRecordingPath \<in> set (trace s'))"
proof -
  note b = joinedBot_def newMeetingBot_def
  have h1: "isInMeeting joinedBot" by (simp add: b)
  have h2: "status joinedBot = Running" by (simp add: b)
  have h3: "\<not> timerStarted joinedBot" by (simp add: timerStarted_def b)
  have h4: "\<forall>x\<in>set (stubTick 1000 0 # [stubTick 6000 0] @ [stubTick 121000 0]).
              tk_ended x (hasJoinedMeeting joinedBot) = Returns False \<and> tk_count x = Returns 0"
    by (simp add: stubTick_def)
  have h5: "tk_now (stubTick 1000 0) \<noteq> 0" by (simp add: stubTick_def)
  have h6: "(2::int) = (case emptyTimeoutMinutes twoMinuteConfig of
                      None \<Rightarrow> 15
                    | Some m \<Rightarrow> if m = 0 then 15 else m)"
    by (simp add: twoMinuteConfig_def DEFAULTS_def)
  have h7: "\<forall>x\<in>set [stubTick 6000 0]. tk_now x - tk_now (stubTick 1000 0) < (2::int) * 60 * 1000"
    by (simp add: stubTick_def)
  have g: "(2::int) * 60 * 1000 \<le> tk_now (stubTick 121000 0) - tk_now (stubTick 1000 0)
          \<and> skipTranscriptionOnEmptyLeave twoMinuteConfig \<noteq> Some False
          \<and> unlinkSucceeds stubEnv \<and> writeSessionFile stubEnv \<noteq> Throws"
    by (simp add: stubTick_def twoMinuteConfig_def DEFAULTS_def stubEnv_def)
  have tr: "trace joinedBot = []" by (simp add: b)
  have lf: "\<not> leftDueToEmptyTimeout joinedBot" by (simp add: b)
  have st: "\<not> cleanupEvent ev \<Longrightarrow> ev \<noteq> EvStopRecording" for ev
    by (auto simp: cleanupEvent_def)
  define w where "w = monitorMeeting twoMinuteConfig stubEnv
                        [stubTick 1000 0, stubTick 6000 0] joinedBot"
  define sL where "sL = (logCall EvGetParticipantCount
                  (logCall (EvCheckMeetingEnded (hasJoinedMeeting w))
                     (flushAudioChunks (tk_chunks (stubTick 121000 0)) w)))
                 \<lparr>isInMeeting := False, leftDueToEmptyTimeout := True\<rparr>"
  define mid where "mid = generateMetadataStep (deleteRecording stubEnv (stopRecording stubEnv sL))"
  define s' where "s' = monitorMeeting twoMinuteConfig stubEnv
                 [stubTick 1000 0, stubTick 6000 0, stubTick 121000 0, stubTick 126000 0]
                 joinedBot"
  have rm: "recordingPath mid = Some stubRecordingPath"
    unfolding mid_def sL_def w_def by code_simp
  have rp': "recordingPath s' = Some stubRecordingPath" unfolding s'_def by code_simp
  have sf: "suffix ''.webm'' stubRecordingPath" by code_simp
  note inst = empty_timeout_leaves_and_discards_recording
               [OF h1 h2 h3 h4 h5 h6 h7, where e = stubEnv and post = "[stubTick 126000 0]",
                unfolded Let_def, simplified append.simps,
                folded w_def, folded sL_def, folded mid_def, folded s'_def]
  from inst tr lf have c1: "status w = Running \<and> isInMeeting w \<and> \<not> leftDueToEmptyTimeout w
      \<and> EvStopRecording \<notin> set (trace w)"
    using st by auto
  from inst g have c2: "s' = writeSessionAndExit stubEnv None mid
         \<and> leftDueToEmptyTimeout s' \<and> \<not> isInMeeting s' \<and> status s' = Exited 0
         \<and> (\<forall>p. recordingPath mid = Some p \<longrightarrow> fs mid p = None)
         \<and> (\<exists>es. trace s' = trace joinedBot @ es
                   \<and> EvStopRecording \<in> set es
                   \<and> (\<forall>p. EvTranscribe p \<notin> set es)
                   \<and> (\<forall>p. recordingPath s' = Some p \<and> suffix ''.webm'' p
                          \<longrightarrow> EvUnlink p \<in> set es))"
    by blast
  with tr rm rp' sf have c3: "s' = writeSessionAndExit stubEnv None mid
         \<and> leftDueToEmptyTimeout s' \<and> \<not> isInMeeting s' \<and> status s' = Exited 0
         \<and> recordingPath mid = Some stubRecordingPath
         \<and> fs mid stubRecordingPath = None
         \<and> (\<forall>p. EvTranscribe p \<notin> set (trace s'))
         \<and> EvUnlink stubRecordingPath \<in> set (trace s')"
    by auto
  from c1 c3 show ?thesis unfolding Let_def w_def sL_def mid_def s'_def by blast
qed

text \<open>
  The claim read with the configured number of minutes fails for a configuration that
  sets \<open>emptyTimeoutMinutes\<close> to 0: the meeting has been empty for ten minutes, more than
  the configured duration, and the bot is still monitoring, because \<open>0 || 15\<close> is 15.
\<close>

theorem zero_minutes_timeout_counterexample:
  "emptyTimeoutMinutes zeroTimeoutConfig = Some 0
   \<and> skipTranscriptionOnEmptyLeave zeroTimeoutConfig = Some True
   \<and> (let s' = monitorMeeting zeroTimeoutConfig stubEnv
                  [stubTick 1000 0, stubTick 6000 0, stubTick 601000 0] joinedBot in
         status s' = Running \<and> isInMeeting s' \<and> \<not> leftDueToEmptyTimeout s'
         \<and> emptyMeetingSince s' = Some 1000
         \<and> EvStopRecording \<notin> set (trace s'))"
  by code_simp

section \<open>Participant count and the empty timer\<close>

lemma logCall_trace_update: "logCall ev s = s\<lparr>trace := trace s @ [ev]\<rparr>"
  by (simp add: logCall_def)

lemma monitorMeeting_step:
  assumes "isInMeeting s" and "status (monitorTick cfg e t s) = Running"
  shows "monitorMeeting cfg e (t # ts) s = monitorMeeting cfg e ts (monitorTick cfg e t s)"
  using assms by (simp add: Let_def)

lemma monitorMeeting_stop:
  assumes "isInMeeting s" and "status (monitorTick cfg e t s) \<noteq> Running"
  shows "monitorMeeting cfg e (t # ts) s = monitorTick cfg e t s"
  using assms by (simp add: Let_def)

text \<open>
  C6. On every pass of the monitoring loop: a positive \<open>participantCount()\<close> observed
  after the empty timer has started resets the timer to \<open>null\<close> before the next check,
  and a count of \<open>-1\<close> leaves the timer as it is, neither starting nor resetting it, and
  changes no other session state (the state is the same but for the record of the call
  made). The count is observed on a pass where \<open>checkMeetingEnded\<close> answered "not ended";
  "started" is the test \<open>if (this.emptyMeetingSince)\<close> of the source.
\<close>

theorem participant_count_and_empty_timer:
  "(timerStarted s \<and> tk_count t = Returns n \<and> 0 < n
      \<longrightarrow> emptyMeetingSince (checkEmptyTimeout cfg e t s) = None)
   \<and> (isInMeeting s \<and> status s = Running
       \<and> tk_ended t (hasJoinedMeeting s) = Returns False
       \<and> timerStarted s \<and> tk_count t = Returns n \<and> 0 < n
      \<longrightarrow> emptyMeetingSince (monitorTick cfg e t s) = None
          \<and> monitorMeeting cfg e (t # ts) s = monitorMeeting cfg e ts (monitorTick cfg e t s))
   \<and> (tk_count t = Returns (- 1)
      \<longrightarrow> checkEmptyTimeout cfg e t s = s\<lparr>trace := trace s @ [EvGetParticipantCount]\<rparr>)
   \<and> (tk_ended t (hasJoinedMeeting s) = Returns False \<and> tk_count t = Returns (- 1)
      \<longrightarrow> emptyMeetingSince (monitorTick cfg e t s) = emptyMeetingSince s)"
proof (intro conjI impI)
  assume "timerStarted s \<and> tk_count t = Returns n \<and> 0 < n"
  then show "emptyMeetingSince (checkEmptyTimeout cfg e t s) = None"
    by (simp add: checkEmptyTimeout_positive)
next
  assume h: "isInMeeting s \<and> status s = Running
       \<and> tk_ended t (hasJoinedMeeting s) = Returns False
       \<and> timerStarted s \<and> tk_count t = Returns n \<and> 0 < n"
  define s1 where "s1 = logCall (EvCheckMeetingEnded (hasJoinedMeeting s))
                          (flushAudioChunks (tk_chunks t) s)"
  have ts1: "timerStarted s1"
    using h by (simp add: s1_def timerStarted_logCall timerStarted_flush)
  have tick: "monitorTick cfg e t s = (logCall EvGetParticipantCount s1)\<lparr>emptyMeetingSince := None\<rparr>"
    using h ts1 by (simp add: monitorTick_not_ended s1_def[symmetric] checkEmptyTimeout_positive)
  have st: "status (monitorTick cfg e t s) = Running"
    using h by (simp add: tick s1_def logCall_fields flushAudioChunks_fields)
  show "emptyMeetingSince (monitorTick cfg e t s) = None" by (simp add: tick)
  show "monitorMeeting cfg e (t # ts) s = monitorMeeting cfg e ts (monitorTick cfg e t s)"
    using h st by (simp add: monitorMeeting_step)
next
  assume "tk_count t = Returns (- 1)"
  then show "checkEmptyTimeout cfg e t s = s\<lparr>trace := trace s @ [EvGetParticipantCount]\<rparr>"
    by (simp add: checkEmptyTimeout_unknown logCall_trace_update)
next
  assume h: "tk_ended t (hasJoinedMeeting s) = Returns False \<and> tk_count t = Returns (- 1)"
  then show "emptyMeetingSince (monitorTick cfg e t s) = emptyMeetingSince s"
    by (simp add: monitorTick_not_ended checkEmptyTimeout_unknown logCall_fields
                  flushAudioChunks_fields)
qed

theorem participant_count_and_empty_timer_witness:
  "timerStarted emptyTimerBot
   \<and> emptyMeetingSince (checkEmptyTimeout DEFAULTS stubEnv (stubTick 6000 3) emptyTimerBot) = None
   \<and> emptyMeetingSince (monitorTick DEFAULTS stubEnv (stubTick 6000 3) emptyTimerBot) = None
   \<and> monitorMeeting DEFAULTS stubEnv [stubTick 6000 3, stubTick 11000 0] emptyTimerBot
       = monitorMeeting DEFAULTS stubEnv [stubTick 11000 0]
           (monitorTick DEFAULTS stubEnv (stubTick 6000 3) emptyTimerBot)
   \<and> checkEmptyTimeout DEFAULTS stubEnv (stubTick 6000 (- 1)) emptyTimerBot
       = emptyTimerBot\<lparr>trace := trace emptyTimerBot @ [EvGetParticipantCount]\<rparr>
   \<and> emptyMeetingSince (monitorTick DEFAULTS stubEnv (stubTick 6000 (- 1)) emptyTimerBot)
       = Some 1000"
proof -
  note b = emptyTimerBot_def joinedBot_def newMeetingBot_def
  have h1: "timerStarted emptyTimerBot" by (simp add: timerStarted_def b)
  have h2: "isInMeeting emptyTimerBot" "status emptyTimerBot = Running" by (simp_all add: b)
  have h3: "tk_ended (stubTick 6000 3) (hasJoinedMeeting emptyTimerBot) = Returns False"
           "tk_count (stubTick 6000 3) = Returns 3" "(0::int) < 3"
    by (simp_all add: stubTick_def)
  have h4: "tk_ended (stubTick 6000 (- 1)) (hasJoinedMeeting emptyTimerBot) = Returns False"
           "tk_count (stubTick 6000 (- 1)) = Returns (- 1)"
    by (simp_all add: stubTick_def)
  have since: "emptyMeetingSince emptyTimerBot = Some 1000" by (simp add: b)
  note p = participant_count_and_empty_timer
             [of emptyTimerBot "stubTick 6000 3" 3 DEFAULTS stubEnv "[stubTick 11000 0]"]
  note u = participant_count_and_empty_timer
             [of emptyTimerBot "stubTick 6000 (- 1)" 3 DEFAULTS stubEnv "[]"]
  from p h1 h3 have c1:
    "emptyMeetingSince (checkEmptyTimeout DEFAULTS stubEnv (stubTick 6000 3) emptyTimerBot) = None"
    by blast
  from p h1 h2 h3 have c2:
    "emptyMeetingSince (monitorTick DEFAULTS stubEnv (stubTick 6000 3) emptyTimerBot) = None
     \<and> monitorMeeting DEFAULTS stubEnv [stubTick 6000 3, stubTick 11000 0] emptyTimerBot
       = monitorMeeting DEFAULTS stubEnv [stubTick 11000 0]
           (monitorTick DEFAULTS stubEnv (stubTick 6000 3) emptyTimerBot)"
    by blast
  from u h4 have c3:
    "checkEmptyTimeout DEFAULTS stubEnv (stubTick 6000 (- 1)) emptyTimerBot
       = emptyTimerBot\<lparr>trace := trace emptyTimerBot @ [EvGetParticipantCount]\<rparr>"
    by blast
  from u h4 have
    "emptyMeetingSince (monitorTick DEFAULTS stubEnv (stubTick 6000 (- 1)) emptyTimerBot)
       = emptyMeetingSince emptyTimerBot"
    by blast
  with since have c4:
    "emptyMeetingSince (monitorTick DEFAULTS stubEnv (stubTick 6000 (- 1)) emptyTimerBot)
       = Some 1000" by simp
  from h1 c1 c2 c3 c4 show ?thesis by blast
qed

section \<open>Throwing adapter calls\<close>

text \<open>
  C3, as the code has it. Only one adapter call is made inside a \<open>try\<close> of the
  controller: \<open>getParticipantCount\<close>, in the monitoring loop.
  \<^item> A throw of \<open>getParticipantCount\<close> during a pass is caught inside the loop: it changes
    no session state and the next pass runs.
  \<^item> A throw of \<open>checkMeetingEnded\<close> is not taken as a negative result: it leaves the loop
    at once, no later pass runs, and the body of \<open>run\<close>, which ends with the monitoring
    loop, ends with that throw.
  \<^item> A throw of an adapter call of the join flow (the navigation, \<open>dismissPopups\<close>,
    \<open>enterName\<close>, \<open>muteMedia\<close>, \<open>clickJoin\<close>, \<open>waitForAdmission\<close>, \<open>verifyInMeeting\<close>) is
    not caught where it is raised either: the body of \<open>run\<close> ends with that throw, the bot
    is not in the meeting, the audio is not routed and the monitoring loop makes no pass.
  \<^item> A throw that ends the body of \<open>run\<close> reaches the handler of \<open>run\<close>, which runs
    \<open>cleanup\<close>: the recording is stopped and the process exits with status 0 when the
    session record can be written.
  \<^item> The \<open>try\<close> of the loop also swallows a throw of the \<open>cleanup\<close> that the empty timeout
    starts: the bot has left the meeting, and the process has not exited.
\<close>

theorem adapter_throw_handling:
  "(tk_count t = Throws
      \<longrightarrow> checkEmptyTimeout cfg e t s = s\<lparr>trace := trace s @ [EvGetParticipantCount]\<rparr>)
   \<and> (isInMeeting s \<and> status s = Running
       \<and> tk_ended t (hasJoinedMeeting s) = Returns False \<and> tk_count t = Throws
      \<longrightarrow> status (monitorTick cfg e t s) = Running
          \<and> monitorMeeting cfg e (t # ts) s = monitorMeeting cfg e ts (monitorTick cfg e t s))
   \<and> (isInMeeting s \<and> status s = Running \<and> tk_ended t (hasJoinedMeeting s) = Throws
      \<longrightarrow> status (monitorTick cfg e t s) = Thrown
          \<and> monitorMeeting cfg e (t # ts) s = monitorTick cfg e t s)
   \<and> (connect e \<noteq> Throws \<and> setupAudioHooks e \<noteq> Throws
       \<and> resolvePlatform url = Some a \<and> joinCallThrows cfg e a
      \<longrightarrow> (let b = runBody cfg e url name ticks (newMeetingBot files) in
             status b = Thrown \<and> \<not> isInMeeting b
             \<and> EvRouteAudio \<notin> set (trace b)
             \<and> (\<forall>j. EvCheckMeetingEnded j \<notin> set (trace b))
             \<and> run cfg e url name ticks (newMeetingBot files)
                 = cleanup cfg e (b\<lparr>status := Running\<rparr>)))
   \<and> (let j = joinedState cfg e url name (newMeetingBot files) in
        status j = Running
        \<longrightarrow> runBody cfg e url name ticks (newMeetingBot files) = monitorMeeting cfg e ticks j)
   \<and> (let j = joinedState cfg e url name (newMeetingBot files) in
        status j = Running \<and> isInMeeting j \<and> tk_ended t (hasJoinedMeeting j) = Throws
        \<longrightarrow> runBody cfg e url name (t # ts) (newMeetingBot files) = monitorTick cfg e t j
            \<and> status (runBody cfg e url name (t # ts) (newMeetingBot files)) = Thrown)
   \<and> (status (runBody cfg e url name ticks start) = Thrown
      \<longrightarrow> run cfg e url name ticks start
            = cleanup cfg e ((runBody cfg e url name ticks start)\<lparr>status := Running\<rparr>)
          \<and> status (run cfg e url name ticks start)
              = (if writeSessionFile e = Throws then Thrown else Exited 0)
          \<and> EvStopRecording \<in> set (trace (run cfg e url name ticks start)))
   \<and> (tk_count t = Returns 0 \<and> emptyMeetingSince s = Some since \<and> since \<noteq> 0
       \<and> emptyTimeoutMs cfg \<le> tk_now t - since \<and> writeSessionFile e = Throws
      \<longrightarrow> status (checkEmptyTimeout cfg e t s) = Running
          \<and> \<not> isInMeeting (checkEmptyTimeout cfg e t s)
          \<and> leftDueToEmptyTimeout (checkEmptyTimeout cfg e t s))"
proof (intro conjI impI)
  assume "tk_count t = Throws"
  then show "checkEmptyTimeout cfg e t s = s\<lparr>trace := trace s @ [EvGetParticipantCount]\<rparr>"
    by (simp add: checkEmptyTimeout_throws logCall_trace_update)
next
  assume h: "isInMeeting s \<and> status s = Running
       \<and> tk_ended t (hasJoinedMeeting s) = Returns False \<and> tk_count t = Throws"
  then have st: "status (monitorTick cfg e t s) = Running"
    by (simp add: monitorTick_not_ended checkEmptyTimeout_throws logCall_fields
                  flushAudioChunks_fields)
  then show "status (monitorTick cfg e t s) = Running" .
  from h st show "monitorMeeting cfg e (t # ts) s = monitorMeeting cfg e ts (monitorTick cfg e t s)"
    by (simp add: monitorMeeting_step)
next
  assume h: "isInMeeting s \<and> status s = Running \<and> tk_ended t (hasJoinedMeeting s) = Throws"
  then have st: "status (monitorTick cfg e t s) = Thrown"
    by (simp add: monitorTick_throws)
  then show "status (monitorTick cfg e t s) = Thrown" .
  from h st show "monitorMeeting cfg e (t # ts) s = monitorTick cfg e t s"
    by (simp add: monitorMeeting_stop)
next
  assume h: "connect e \<noteq> Throws \<and> setupAudioHooks e \<noteq> Throws
       \<and> resolvePlatform url = Some a \<and> joinCallThrows cfg e a"
  then have "outsideMeeting Thrown (runBody cfg e url name ticks (newMeetingBot files))"
    by (simp add: runBody_join_throws)
  then show "let b = runBody cfg e url name ticks (newMeetingBot files) in
             status b = Thrown \<and> \<not> isInMeeting b
             \<and> EvRouteAudio \<notin> set (trace b)
             \<and> (\<forall>j. EvCheckMeetingEnded j \<notin> set (trace b))
             \<and> run cfg e url name ticks (newMeetingBot files)
                 = cleanup cfg e (b\<lparr>status := Running\<rparr>)"
    by (simp add: outsideMeeting_def run_def Let_def)
next
  show "let j = joinedState cfg e url name (newMeetingBot files) in
        status j = Running
        \<longrightarrow> runBody cfg e url name ticks (newMeetingBot files) = monitorMeeting cfg e ticks j"
    by (simp add: runBody_joinedState Let_def)
next
  show "let j = joinedState cfg e url name (newMeetingBot files) in
        status j = Running \<and> isInMeeting j \<and> tk_ended t (hasJoinedMeeting j) = Throws
        \<longrightarrow> runBody cfg e url name (t # ts) (newMeetingBot files) = monitorTick cfg e t j
            \<and> status (runBody cfg e url name (t # ts) (newMeetingBot files)) = Thrown"
  proof -
    define j where "j = joinedState cfg e url name (newMeetingBot files)"
    have "runBody cfg e url name (t # ts) (newMeetingBot files) = monitorTick cfg e t j
          \<and> status (runBody cfg e url name (t # ts) (newMeetingBot files)) = Thrown"
      if h: "status j = Running" "isInMeeting j" "tk_ended t (hasJoinedMeeting j) = Throws"
    proof -
      have st: "status (monitorTick cfg e t j) = Thrown"
        using h(3) by (simp add: monitorTick_throws)
      then have "monitorMeeting cfg e (t # ts) j = monitorTick cfg e t j"
        using h(2) by (simp add: monitorMeeting_stop)
      with h(1) st show ?thesis
        by (simp add: runBody_joinedState j_def[symmetric])
    qed
    then show ?thesis unfolding Let_def j_def by blast
  qed
next
  assume h: "status (runBody cfg e url name ticks start) = Thrown"
  then show r: "run cfg e url name ticks start
            = cleanup cfg e ((runBody cfg e url name ticks start)\<lparr>status := Running\<rparr>)"
    by (simp add: run_def Let_def)
  show "status (run cfg e url name ticks start)
              = (if writeSessionFile e = Throws then Thrown else Exited 0)"
    unfolding r by (rule cleanup_status)
  from cleanup_trace[of cfg e "(runBody cfg e url name ticks start)\<lparr>status := Running\<rparr>"]
  show "EvStopRecording \<in> set (trace (run cfg e url name ticks start))"
    unfolding r by auto
next
  assume h: "tk_count t = Returns 0 \<and> emptyMeetingSince s = Some since \<and> since \<noteq> 0
       \<and> emptyTimeoutMs cfg \<le> tk_now t - since \<and> writeSessionFile e = Throws"
  define sL where "sL = (logCall EvGetParticipantCount s)
                             \<lparr>isInMeeting := False, leftDueToEmptyTimeout := True\<rparr>"
  from h have c0: "tk_count t = Returns 0" and since: "emptyMeetingSince s = Some since" "since \<noteq> 0"
    and le: "emptyTimeoutMs cfg \<le> tk_now t - since" and wf: "writeSessionFile e = Throws"
    by simp_all
  have ce: "checkEmptyTimeout cfg e t s = (cleanup cfg e sL)\<lparr>status := Running\<rparr>"
    unfolding sL_def using c0 since le wf by (rule checkEmptyTimeout_zero_leave_write_fails)
  show "status (checkEmptyTimeout cfg e t s) = Running"
    by (simp add: ce)
  show "\<not> isInMeeting (checkEmptyTimeout cfg e t s)"
    by (simp add: ce cleanup_flags sL_def)
  show "leftDueToEmptyTimeout (checkEmptyTimeout cfg e t s)"
    by (simp add: ce cleanup_flags sL_def)
qed

theorem adapter_throw_handling_witness:
  "checkEmptyTimeout DEFAULTS stubEnv countThrowsTick joinedBot
     = joinedBot\<lparr>trace := trace joinedBot @ [EvGetParticipantCount]\<rparr>
   \<and> monitorMeeting DEFAULTS stubEnv [countThrowsTick, stubTick 11000 2] joinedBot
     = monitorMeeting DEFAULTS stubEnv [stubTick 11000 2]
         (monitorTick DEFAULTS stubEnv countThrowsTick joinedBot)
   \<and> tk_ended crashTick (hasJoinedMeeting unconfirmedBot) = Throws
   \<and> monitorMeeting DEFAULTS stubEnv [crashTick, stubTick 11000 2] unconfirmedBot
     = monitorTick DEFAULTS stubEnv crashTick unconfirmedBot
   \<and> status (monitorTick DEFAULTS stubEnv crashTick unconfirmedBot) = Thrown
   \<and> joinCallThrows DEFAULTS clickJoinThrowsEnv GoogleMeet
   \<and> status (runBody DEFAULTS clickJoinThrowsEnv meetUrl ''standup'' [stubTick 6000 2]
               (newMeetingBot Map.empty)) = Thrown
   \<and> run DEFAULTS clickJoinThrowsEnv meetUrl ''standup'' [stubTick 6000 2]
        (newMeetingBot Map.empty)
      = cleanup DEFAULTS clickJoinThrowsEnv
          ((runBody DEFAULTS clickJoinThrowsEnv meetUrl ''standup'' [stubTick 6000 2]
              (newMeetingBot Map.empty))\<lparr>status := Running\<rparr>)
   \<and> status (runBody DEFAULTS unconfirmedEnv meetUrl ''standup'' [crashTick, stubTick 11000 2]
               (newMeetingBot Map.empty)) = Thrown
   \<and> status (run DEFAULTS unconfirmedEnv meetUrl ''standup'' [crashTick, stubTick 11000 2]
               (newMeetingBot Map.empty)) = Exited 0
   \<and> status (checkEmptyTimeout DEFAULTS diskFullEnv (stubTick 901000 0) emptyTimerBot) = Running
   \<and> \<not> isInMeeting (checkEmptyTimeout DEFAULTS diskFullEnv (stubTick 901000 0) emptyTimerBot)"
proof -
  note b = joinedBot_def unconfirmedBot_def emptyTimerBot_def newMeetingBot_def
  have g1: "tk_count countThrowsTick = Throws" by (simp add: countThrowsTick_def)
  have g2: "isInMeeting joinedBot" "status joinedBot = Running"
    "tk_ended countThrowsTick (hasJoinedMeeting joinedBot) = Returns False"
    by (simp_all add: b countThrowsTick_def stubTick_def)
  have g3: "isInMeeting unconfirmedBot" "status unconfirmedBot = Running" by (simp_all add: b)
  have g4: "tk_ended crashTick (hasJoinedMeeting unconfirmedBot) = Throws" by code_simp
  have g5: "connect clickJoinThrowsEnv \<noteq> Throws" "setupAudioHooks clickJoinThrowsEnv \<noteq> Throws"
    by (simp_all add: clickJoinThrowsEnv_def stubEnv_def)
  have g6: "resolvePlatform meetUrl = Some GoogleMeet" by code_simp
  have g7: "joinCallThrows DEFAULTS clickJoinThrowsEnv GoogleMeet"
    by (simp add: joinCallThrows_def clickJoinThrowsEnv_def)
  define j where "j = joinedState DEFAULTS unconfirmedEnv meetUrl ''standup''
                        (newMeetingBot Map.empty)"
  have g8: "status j = Running" "isInMeeting j" "tk_ended crashTick (hasJoinedMeeting j) = Throws"
    unfolding j_def by code_simp+
  have g9: "tk_count (stubTick 901000 0) = Returns 0" "emptyMeetingSince emptyTimerBot = Some 1000"
    "(1000::int) \<noteq> 0" "emptyTimeoutMs DEFAULTS \<le> tk_now (stubTick 901000 0) - 1000"
    "writeSessionFile diskFullEnv = Throws"
    by (simp_all add: b stubTick_def emptyTimeoutMs_def DEFAULTS_def diskFullEnv_def stubEnv_def)
  have g10: "writeSessionFile unconfirmedEnv \<noteq> Throws"
    by (simp add: unconfirmedEnv_def stubEnv_def)
  note a1 = adapter_throw_handling
             [where t = countThrowsTick and cfg = DEFAULTS and e = stubEnv and s = joinedBot
                and ts = "[stubTick 11000 2]", unfolded Let_def]
  note a2 = adapter_throw_handling
             [where t = crashTick and cfg = DEFAULTS and e = stubEnv and s = unconfirmedBot
                and ts = "[stubTick 11000 2]", unfolded Let_def]
  note a3 = adapter_throw_handling
             [where cfg = DEFAULTS and e = clickJoinThrowsEnv and url = meetUrl
                and a = GoogleMeet and name = "''standup''" and ticks = "[stubTick 6000 2]"
                and files = Map.empty, unfolded Let_def]
  note a4 = adapter_throw_handling
             [where cfg = DEFAULTS and e = unconfirmedEnv and url = meetUrl
                and name = "''standup''" and t = crashTick and ts = "[stubTick 11000 2]"
                and files = Map.empty and ticks = "[crashTick, stubTick 11000 2]"
                and start = "newMeetingBot Map.empty", unfolded Let_def, folded j_def]
  note a5 = adapter_throw_handling
             [where cfg = DEFAULTS and e = diskFullEnv and t = "stubTick 901000 0"
                and s = emptyTimerBot and since = 1000, unfolded Let_def]
  from a1 g1 have c1: "checkEmptyTimeout DEFAULTS stubEnv countThrowsTick joinedBot
     = joinedBot\<lparr>trace := trace joinedBot @ [EvGetParticipantCount]\<rparr>" by blast
  from a1 g1 g2 have c2: "monitorMeeting DEFAULTS stubEnv [countThrowsTick, stubTick 11000 2] joinedBot
     = monitorMeeting DEFAULTS stubEnv [stubTick 11000 2]
         (monitorTick DEFAULTS stubEnv countThrowsTick joinedBot)" by blast
  from a2 g3 g4 have c3: "monitorMeeting DEFAULTS stubEnv [crashTick, stubTick 11000 2] unconfirmedBot
     = monitorTick DEFAULTS stubEnv crashTick unconfirmedBot
     \<and> status (monitorTick DEFAULTS stubEnv crashTick unconfirmedBot) = Thrown" by blast
  from a3 g5 g6 g7 have c4: "status (runBody DEFAULTS clickJoinThrowsEnv meetUrl ''standup''
               [stubTick 6000 2] (newMeetingBot Map.empty)) = Thrown
   \<and> run DEFAULTS clickJoinThrowsEnv meetUrl ''standup'' [stubTick 6000 2]
        (newMeetingBot Map.empty)
      = cleanup DEFAULTS clickJoinThrowsEnv
          ((runBody DEFAULTS clickJoinThrowsEnv meetUrl ''standup'' [stubTick 6000 2]
              (newMeetingBot Map.empty))\<lparr>status := Running\<rparr>)" by blast
  from a4 g8 have c5: "status (runBody DEFAULTS unconfirmedEnv meetUrl ''standup''
               [crashTick, stubTick 11000 2] (newMeetingBot Map.empty)) = Thrown" by blast
  from a4 c5 have "status (run DEFAULTS unconfirmedEnv meetUrl ''standup''
               [crashTick, stubTick 11000 2] (newMeetingBot Map.empty))
              = (if writeSessionFile unconfirmedEnv = Throws then Thrown else Exited 0)"
    by blast
  with g10 have c6: "status (run DEFAULTS unconfirmedEnv meetUrl ''standup''
               [crashTick, stubTick 11000 2] (newMeetingBot Map.empty)) = Exited 0" by simp
  from a5 g9 have c7: "status (checkEmptyTimeout DEFAULTS diskFullEnv (stubTick 901000 0)
                                 emptyTimerBot) = Running
   \<and> \<not> isInMeeting (checkEmptyTimeout DEFAULTS diskFullEnv (stubTick 901000 0) emptyTimerBot)"
    by blast
  from c1 c2 g4 c3 g7 c4 c5 c6 c7 show ?thesis by blast
qed

text \<open>
  The statement that every throwing adapter call is swallowed and retried on the next
  pass fails on a Google Meet session whose join was not confirmed: the probe for the
  join page in \<open>checkMeetingEnded(false)\<close> throws on the first pass, the second pass never
  runs, and the session is cleaned up and the process exits.
\<close>

theorem adapter_throw_ends_session_counterexample:
  "tk_ended crashTick False = Throws
   \<and> (let s = run DEFAULTS unconfirmedEnv meetUrl ''standup'' [crashTick, stubTick 11000 2]
                 (newMeetingBot Map.empty) in
        status s = Exited 0
        \<and> trace s =
            [EvConnect, EvSetupAudio, EvStartRecording ''standup'', EvGoto meetUrl,
             EvDismissPopups, EvEnterName, EvMuteMedia, EvDismissPopups, EvClickJoin,
             EvDismissPopups, EvVerifyInMeeting, EvRouteAudio, EvCheckMeetingEnded False,
             EvStopRecording, EvTranscribe stubRecordingPath,
             EvGenerateMetadata stubRecordingPath, EvWriteSession stubRecordingPath,
             EvExit 0])"
  by code_simp

section \<open>Waiting room\<close>

lemma call_returns:
  assumes "r \<noteq> Throws"
  shows "call ev r s = logCall ev s"
  using assms by (cases r) (simp_all add: call_def)

lemma init_returns:
  assumes "connect e \<noteq> Throws"
  shows "init e s = (logCall EvConnect s)\<lparr>attached := True\<rparr>"
  using assms by (cases "connect e") (simp_all add: init_def)

lemma cleanupEvent_not_active: "cleanupEvent ev \<Longrightarrow> \<not> activeOrMonitoringEvent ev"
  by (cases ev) (simp_all add: cleanupEvent_def activeOrMonitoringEvent_def)

lemma cleanupEvent_not_start: "cleanupEvent ev \<Longrightarrow> \<not> isStartRecording ev"
  by (cases ev) (simp_all add: cleanupEvent_def isStartRecording_def)

lemma joinPrefixTrace_not_active:
  "\<forall>ev\<in>set (joinPrefixTrace cfg a url name). \<not> activeOrMonitoringEvent ev"
  by (simp add: joinPrefixTrace_def activeOrMonitoringEvent_def)

lemma joinPrefixTrace_start:
  "filter isStartRecording (joinPrefixTrace cfg a url name) = [EvStartRecording name]"
  by (simp add: joinPrefixTrace_def isStartRecording_def)

lemma run_never_admitted:
  assumes res: "resolvePlatform url = Some a" and cap: "hasWaitForAdmission a"
    and ok: "joinFlowReturns cfg e"
    and adm: "waitForAdmission e = Returns Ended \<or> waitForAdmission e = Returns Timeout"
    and wr: "writeSessionFile e \<noteq> Throws"
  shows "\<exists>sp. run cfg e url name ticks (newMeetingBot files) = cleanup cfg e sp
              \<and> trace sp = joinPrefixTrace cfg a url name @ [EvWaitForAdmission]
              \<and> \<not> hasJoinedMeeting sp \<and> \<not> isInMeeting sp"
proof -
  define s3 where "s3 = startRecording e name (setupAudio e (init e (newMeetingBot files)))"
  have s3: "status s3 = Running" "trace s3 = [EvConnect, EvSetupAudio, EvStartRecording name]"
    "\<not> hasJoinedMeeting s3" "\<not> isInMeeting s3"
    using ok
    by (simp_all add: s3_def joinFlowReturns_def init_returns setupAudio_def call_returns
          startRecording_def logCall_def newMeetingBot_def)
  have pre: "runSteps [init e, setupAudio e, startRecording e name, joinMeeting cfg e url,
                       monitorMeeting cfg e ticks] (newMeetingBot files)
             = runSteps [joinMeeting cfg e url, monitorMeeting cfg e ticks] s3"
    using ok
    by (simp add: s3_def joinFlowReturns_def init_returns setupAudio_def call_returns
          startRecording_def logCall_def newMeetingBot_def Let_def)
  define sa where "sa = runSteps
            [ (\<lambda>s. s\<lparr>adapter := Some a, platformName := Some (platform_name a)\<rparr>),
              call (EvGoto (normalizeUrl a url)) (goto e),
              call EvDismissPopups (dismissPopups e 1),
              (\<lambda>s. if googleAccountEnabled cfg then s else call EvEnterName (enterName e) s),
              call EvMuteMedia (muteMedia e),
              call EvDismissPopups (dismissPopups e 2),
              call EvClickJoin (clickJoin e),
              call EvDismissPopups (dismissPopups e 3) ] s3"
  have en: "googleAccountEnabled cfg \<or> enterName e \<noteq> Throws"
    using ok by (simp add: joinFlowReturns_def)
  have calls: "goto e \<noteq> Throws" "dismissPopups e 1 \<noteq> Throws" "dismissPopups e 2 \<noteq> Throws"
    "dismissPopups e 3 \<noteq> Throws" "muteMedia e \<noteq> Throws" "clickJoin e \<noteq> Throws"
    using ok by (simp_all add: joinFlowReturns_def)
  have sa: "status sa = Running \<and> trace sa = joinPrefixTrace cfg a url name
            \<and> \<not> hasJoinedMeeting sa \<and> \<not> isInMeeting sa"
  proof (cases "googleAccountEnabled cfg")
    case True
    then show ?thesis
      using calls s3
      by (simp add: sa_def call_returns logCall_def Let_def joinPrefixTrace_def)
  next
    case False
    with en have "enterName e \<noteq> Throws" by simp
    with False show ?thesis
      using calls s3
      by (simp add: sa_def call_returns logCall_def Let_def joinPrefixTrace_def)
  qed
  define sp where "sp = neverGotIn (logCall EvWaitForAdmission sa)"
  have sp: "trace sp = joinPrefixTrace cfg a url name @ [EvWaitForAdmission]"
    "\<not> hasJoinedMeeting sp" "\<not> isInMeeting sp"
    using sa by (simp_all add: sp_def neverGotIn_def logCall_def)
  have adm_step: "admissionStep cfg e a sa = cleanup cfg e sp"
    using cap adm by (auto simp: admissionStep_def sp_def)
  have jm0: "joinMeeting cfg e url s3
             = runSteps
                 ([ (\<lambda>s. s\<lparr>adapter := Some a, platformName := Some (platform_name a)\<rparr>),
                    call (EvGoto (normalizeUrl a url)) (goto e),
                    call EvDismissPopups (dismissPopups e 1),
                    (\<lambda>s. if googleAccountEnabled cfg then s
                         else call EvEnterName (enterName e) s),
                    call EvMuteMedia (muteMedia e),
                    call EvDismissPopups (dismissPopups e 2),
                    call EvClickJoin (clickJoin e),
                    call EvDismissPopups (dismissPopups e 3) ] @ [admissionStep cfg e a]) s3"
    by (simp add: joinMeeting_def res)
  have jm: "joinMeeting cfg e url s3 = cleanup cfg e sp"
    unfolding jm0 runSteps_append[OF s3(1)] sa_def[symmetric] runSteps_single
    using sa adm_step by simp
  have "runBody cfg e url name ticks (newMeetingBot files) = cleanup cfg e sp"
    unfolding runBody_def pre using wr by (simp add: jm cleanup_status Let_def)
  then have "run cfg e url name ticks (newMeetingBot files) = cleanup cfg e sp"
    using wr by (simp add: run_def Let_def cleanup_status)
  with sp show ?thesis by blast
qed

text \<open>
  C1, as the code has it. \<open>run\<close> starts the recording before it joins
  (\<open>init\<close>, \<open>setupAudio\<close>, \<open>startRecording\<close>, then \<open>joinMeeting\<close>), so the recording has been
  started once when the waiting room is reached. For an adapter with a waiting room
  whose \<open>waitForAdmission\<close> answers "ended" or "timeout" (the calls before it
  returning), the session goes from the waiting room straight to \<open>cleanup\<close>: the
  has-joined flag is false, the audio is never routed, \<open>verifyInMeeting\<close> is not asked,
  the monitoring loop makes no pass, the recording is not started again, and the process
  exits with status 0 once the session record is written.
\<close>

theorem never_admitted_goes_to_cleanup:
  assumes "resolvePlatform url = Some a" and "hasWaitForAdmission a"
    and "joinFlowReturns cfg e"
    and "waitForAdmission e = Returns Ended \<or> waitForAdmission e = Returns Timeout"
    and "writeSessionFile e \<noteq> Throws"
  shows "let s' = run cfg e url name ticks (newMeetingBot files) in
           \<not> hasJoinedMeeting s' \<and> \<not> isInMeeting s' \<and> status s' = Exited 0
           \<and> (\<exists>es. trace s' = joinPrefixTrace cfg a url name
                                  @ EvWaitForAdmission # EvStopRecording # es
                     \<and> (\<forall>ev\<in>set es. cleanupEvent ev))
           \<and> (\<forall>ev\<in>set (trace s'). \<not> activeOrMonitoringEvent ev)
           \<and> filter isStartRecording (trace s') = [EvStartRecording name]"
proof -
  from run_never_admitted[OF assms, of name ticks files] obtain sp where
    r: "run cfg e url name ticks (newMeetingBot files) = cleanup cfg e sp"
    and sp: "trace sp = joinPrefixTrace cfg a url name @ [EvWaitForAdmission]"
      "\<not> hasJoinedMeeting sp" "\<not> isInMeeting sp"
    by blast
  from cleanup_trace[of cfg e sp] obtain es where
    es: "trace (cleanup cfg e sp) = trace sp @ EvStopRecording # es"
        "\<forall>ev\<in>set es. cleanupEvent ev" by blast
  have tr: "trace (cleanup cfg e sp)
            = joinPrefixTrace cfg a url name @ EvWaitForAdmission # EvStopRecording # es"
    by (simp add: es(1) sp(1))
  have fixed: "\<not> activeOrMonitoringEvent EvWaitForAdmission"
    "\<not> activeOrMonitoringEvent EvStopRecording"
    by (simp_all add: activeOrMonitoringEvent_def)
  have na: "\<forall>ev\<in>set (trace (cleanup cfg e sp)). \<not> activeOrMonitoringEvent ev"
    using joinPrefixTrace_not_active[of cfg a url name] es(2) fixed
    by (auto simp: tr dest: cleanupEvent_not_active)
  have "filter isStartRecording es = []"
    using es(2) by (auto simp: filter_empty_conv dest: cleanupEvent_not_start)
  then have one: "filter isStartRecording (trace (cleanup cfg e sp)) = [EvStartRecording name]"
    by (simp add: tr joinPrefixTrace_start isStartRecording_def)
  have ex: "\<exists>es. trace (cleanup cfg e sp) = joinPrefixTrace cfg a url name
                                  @ EvWaitForAdmission # EvStopRecording # es
                     \<and> (\<forall>ev\<in>set es. cleanupEvent ev)"
    using tr es(2) by blast
  show ?thesis
    unfolding Let_def r using sp(2,3) ex na one assms(5)
    by (simp add: cleanup_flags cleanup_status)
qed

theorem never_admitted_goes_to_cleanup_witness:
  "resolvePlatform zoomUrl = Some Zoom \<and> hasWaitForAdmission Zoom
   \<and> waitForAdmission endedInWaitingRoomEnv = Returns Ended
   \<and> (let s' = run DEFAULTS endedInWaitingRoomEnv zoomUrl ''standup'' [stubTick 6000 2]
                  (newMeetingBot Map.empty) in
         \<not> hasJoinedMeeting s' \<and> \<not> isInMeeting s' \<and> status s' = Exited 0
         \<and> (\<forall>ev\<in>set (trace s'). \<not> activeOrMonitoringEvent ev)
         \<and> filter isStartRecording (trace s') = [EvStartRecording ''standup''])"
proof -
  have h1: "resolvePlatform zoomUrl = Some Zoom" by code_simp
  have h2: "hasWaitForAdmission Zoom" by (simp add: hasWaitForAdmission_def)
  have h3: "joinFlowReturns DEFAULTS endedInWaitingRoomEnv"
    by (simp add: joinFlowReturns_def endedInWaitingRoomEnv_def stubEnv_def)
  have h4: "waitForAdmission endedInWaitingRoomEnv = Returns Ended"
    by (simp add: endedInWaitingRoomEnv_def stubEnv_def)
  then have h4': "waitForAdmission endedInWaitingRoomEnv = Returns Ended
                  \<or> waitForAdmission endedInWaitingRoomEnv = Returns Timeout" by simp
  have h5: "writeSessionFile endedInWaitingRoomEnv \<noteq> Throws"
    by (simp add: endedInWaitingRoomEnv_def stubEnv_def)
  from never_admitted_goes_to_cleanup [OF h1 h2 h3 h4' h5, of "''standup''" "[stubTick 6000 2]"
                                         Map.empty]
  have "let s' = run DEFAULTS endedInWaitingRoomEnv zoomUrl ''standup'' [stubTick 6000 2]
                  (newMeetingBot Map.empty) in
         \<not> hasJoinedMeeting s' \<and> \<not> isInMeeting s' \<and> status s' = Exited 0
         \<and> (\<forall>ev\<in>set (trace s'). \<not> activeOrMonitoringEvent ev)
         \<and> filter isStartRecording (trace s') = [EvStartRecording ''standup'']"
    unfolding Let_def by blast
  with h1 h2 h4 show ?thesis by blast
qed

text \<open>
  The recording is started although the bot is never admitted: the meeting ends while
  the bot sits in the Zoom waiting room, and \<open>startRecording\<close> has been called before
  the navigation.
\<close>

theorem recording_started_before_join_counterexample:
  "resolvePlatform zoomUrl = Some Zoom \<and> hasWaitForAdmission Zoom
   \<and> waitForAdmission endedInWaitingRoomEnv = Returns Ended
   \<and> (let s' = run DEFAULTS endedInWaitingRoomEnv zoomUrl ''standup'' []
                  (newMeetingBot Map.empty) in
         status s' = Exited 0 \<and> \<not> hasJoinedMeeting s'
         \<and> EvStartRecording ''standup'' \<in> set (trace s')
         \<and> trace s' =
             [EvConnect, EvSetupAudio, EvStartRecording ''standup'',
              EvGoto ''https://zoom.us/wc/join/123456789?pwd=abc123'', EvDismissPopups,
              EvEnterName, EvMuteMedia, EvDismissPopups, EvClickJoin, EvDismissPopups,
              EvWaitForAdmission, EvStopRecording,
              EvWriteSession ''/tmp/last-meeting-session.json'', EvExit 0])"
  by code_simp


section \<open>Browser attach failure\<close>

lemma run_connect_fails:
  assumes "connect e = Throws" and "writeSessionFile e = Returns ()"
  shows "run cfg e url name ticks (newMeetingBot files)
         = (newMeetingBot files)
             \<lparr> fs := files(''/tmp/last-meeting-session.json'' \<mapsto>
                         SessionJson \<lparr> si_platform = None, si_audio = None,
                                       si_rawTranscript = None, si_transcript = None \<rparr>),
               trace := [EvConnect, EvStopRecording,
                         EvWriteSession ''/tmp/last-meeting-session.json'', EvExit 0],
               status := Exited 0 \<rparr>"
  using assms
  by (simp add: run_def runBody_def init_def logCall_def newMeetingBot_def Let_def
        cleanup_def stopRecording_def finalFlush_def checkRecordingFile_def
        transcribeOrSkip_def skipTranscription_def transcribe_def generateMetadataStep_def
        transcriptPathOf_def writeSessionAndExit_def sessionFileOf_def sessionInfoOf_def)

lemma watcher_connect_fails:
  assumes "connectBrowser e = Throws"
  shows "w_status (WhatsAppWatcher_startup e w) = Exited 1
         \<and> (\<forall>p. isSessionRecord (w_fs (WhatsAppWatcher_startup e w) p)
                 \<longrightarrow> isSessionRecord (w_fs w p))"
  using assms by (simp add: WhatsAppWatcher_startup_def isSessionRecord_def Let_def)

text \<open>
  C2 on the code. When \<open>puppeteer.connect\<close> rejects, \<open>WhatsAppWatcher.run\<close> exits with
  status 1 and writes no session record. \<open>MeetingBot.run\<close> catches the same failure,
  runs \<open>cleanup\<close>, writes a session record to \<open>/tmp/last-meeting-session.json\<close> and
  exits with status 0.
\<close>

theorem meeting_bot_attach_failure_exits_zero_with_record:
  "connect noBrowserEnv = Throws
   \<and> (let s = run DEFAULTS noBrowserEnv meetUrl ''standup'' [] (newMeetingBot Map.empty) in
        status s = Exited 0
        \<and> isSessionRecord (fs s ''/tmp/last-meeting-session.json'')
        \<and> trace s = [EvConnect, EvStopRecording,
                      EvWriteSession ''/tmp/last-meeting-session.json'', EvExit 0])
   \<and> connectBrowser noBrowserWatcherEnv = Throws
   \<and> w_status (WhatsAppWatcher_startup noBrowserWatcherEnv (newWhatsAppWatcher Map.empty))
       = Exited 1
   \<and> \<not> isSessionRecord
         (w_fs (WhatsAppWatcher_startup noBrowserWatcherEnv (newWhatsAppWatcher Map.empty))
            ''/tmp/last-whatsapp-call-session.json'')"
  by code_simp


section \<open>End detection before and after a confirmed join\<close>

lemma Zoom_never_joined:
  "Zoom_checkMeetingEnded p False = pageContainsAny p zoomEndIndicators"
  by (simp add: Zoom_checkMeetingEnded_def)

lemma GoogleMeet_never_joined:
  assumes "GoogleMeet_checkMeetingEnded p False = Returns True"
  shows "pageContainsAny p (meetEndIndicators False)"
  using assms
  by (auto simp: GoogleMeet_checkMeetingEnded_def meetEndedAfterJoinPageCheck_def
                 meetRedirected_def
           split: result.splits if_splits)

lemma Zoom_joined_ui_gone:
  assumes "zoomSessionUiAbsent p" and "bodyTextLong p"
  shows "Zoom_checkMeetingEnded p True"
  using assms by (simp add: Zoom_checkMeetingEnded_def zoomSessionUiAbsent_def)

lemma WhatsApp_ignores_flag:
  assumes "pg_innerText p = Returns text"
  shows "WhatsApp_checkCallEnded p False = WhatsApp_checkCallEnded p True"
  using assms by (simp add: WhatsApp_checkCallEnded_def)

lemma WhatsApp_ui_absent_ends:
  assumes "pg_innerText p = Returns text" and "whatsappSessionUiAbsent p"
    and "whatsappHasMainUI p"
  shows "WhatsApp_checkCallEnded p hasJoinedBefore"
  using assms by (simp add: WhatsApp_checkCallEnded_def whatsappSessionUiAbsent_def)

text \<open>
  C4 on the code. Zoom reports the end before a confirmed join only on an explicit end
  text, and Google Meet only on an end text as well; after a confirmed join Zoom takes
  the missing meeting UI as the end. The WhatsApp adapter does not look at the flag
  outside its \<open>catch\<close>: on the chat list, with no call button on the page and no end
  text, \<open>checkCallEnded(false)\<close> returns true.
\<close>

theorem whatsapp_ends_call_before_join_confirmed:
  "pg_innerText chatListPage = Returns ''Chats''
   \<and> \<not> containsAny (toLowerCase ''Chats'') whatsappEndPatterns
   \<and> whatsappSessionUiAbsent chatListPage
   \<and> WhatsApp_checkCallEnded chatListPage False
   \<and> checkMeetingEnded WhatsApp chatListPage False = Returns True"
  by code_simp

end
